theory Spec2Isabelle
  imports Complex_Main "HOL-Library.AList"
begin

section \<open>Core types (types/canvas.ts)\<close>

text \<open>
  A JavaScript \<open>number\<close> is modelled as a rational: every arithmetic step is exact.
  Where the source can produce a non-finite number (a division by zero), the model
  says so explicitly, either with the extended numbers \<open>num\<close> below or with a result
  of type \<open>option\<close> whose \<open>None\<close> stands for "a coordinate that is no finite number".
\<close>

record Point =
  px :: rat
  py :: rat

record Bounds =
  b_x :: rat
  b_y :: rat
  b_width :: rat
  b_height :: rat

record Transform =
  tx :: rat
  ty :: rat
  scale :: rat

text \<open>\<open>Partial<Transform>\<close>: every field may be absent.\<close>

record TransformPartial =
  p_tx :: "rat option"
  p_ty :: "rat option"
  p_scale :: "rat option"

datatype ElementType =
  Rectangle | Ellipse | Diamond | Triangle | Line | Arrow | Freedraw
  | Text | Image | Frame | Sticky | Connector

text \<open>
  \<open>BaseElement\<close>. The fields that only some variants carry (stroke, fill, points, text
  and so on) are never read by the store; they travel with the element as a whole and
  are left out here.
\<close>

record element =
  eid :: string
  etype :: ElementType
  ex :: rat
  ey :: rat
  ewidth :: rat
  eheight :: rat
  rotation :: rat
  opacity :: rat
  locked :: bool
  groupId :: "string option"
  zIndex :: rat
  createdAt :: rat
  updatedAt :: rat

text \<open>\<open>Partial<CanvasElement>\<close>, the argument of \<open>updateElement\<close>.\<close>

record element_partial =
  u_id :: "string option"
  u_type :: "ElementType option"
  u_x :: "rat option"
  u_y :: "rat option"
  u_width :: "rat option"
  u_height :: "rat option"
  u_rotation :: "rat option"
  u_opacity :: "rat option"
  u_locked :: "bool option"
  u_groupId :: "string option option"
  u_zIndex :: "rat option"
  u_createdAt :: "rat option"
  u_updatedAt :: "rat option"

definition no_updates :: element_partial where
  "no_updates = \<lparr>u_id = None, u_type = None, u_x = None, u_y = None, u_width = None,
     u_height = None, u_rotation = None, u_opacity = None, u_locked = None,
     u_groupId = None, u_zIndex = None, u_createdAt = None, u_updatedAt = None\<rparr>"

datatype StrokeKind = Solid | Dashed | Dotted

record StrokeStyle =
  stroke_color :: string
  stroke_width :: rat
  stroke_style :: StrokeKind

datatype FillKind = FillSolid | Hachure | CrossHatch | FillNone

record FillStyle =
  fill_type :: FillKind
  fill_color :: string

datatype FontWeight = WeightNormal | Bold
datatype FontStyle = StyleNormal | Italic
datatype TextAlign = AlignLeft | AlignCenter | AlignRight
datatype VerticalAlign = AlignTop | AlignMiddle | AlignBottom

record TextStyle =
  fontSize :: rat
  fontFamily :: string
  fontWeight :: FontWeight
  fontStyle :: FontStyle
  textAlign :: TextAlign
  verticalAlign :: VerticalAlign
  text_color :: string
  lineHeight :: rat

datatype Tool =
  SelectTool | HandTool | RectangleTool | EllipseTool | DiamondTool | TriangleTool
  | LineTool | ArrowTool | FreedrawTool | TextTool | StickyTool | FrameTool
  | ConnectorTool | EraserTool | LaserTool

datatype ResizeHandle = NW | N | NE | W | E | SW | S | SE | RotationHandle

text \<open>The handle as the string the source tests with \<open>includes\<close>.\<close>

fun handle_name :: "ResizeHandle \<Rightarrow> string" where
  "handle_name NW = ''nw''"
| "handle_name N = ''n''"
| "handle_name NE = ''ne''"
| "handle_name W = ''w''"
| "handle_name E = ''e''"
| "handle_name SW = ''sw''"
| "handle_name S = ''s''"
| "handle_name SE = ''se''"
| "handle_name RotationHandle = ''rotation''"

definition includes_char :: "ResizeHandle \<Rightarrow> char \<Rightarrow> bool" where
  "includes_char h c = (c \<in> set (handle_name h))"

datatype EntryType = Add | Update | Delete | Batch

text \<open>
  \<open>HistoryEntry\<close>. \<open>before\<close> and \<open>after\<close> have the type
  \<open>Record<string, CanvasElement | null>\<close> and are modelled at that type: a lookup yields
  an element or \<open>null\<close> (\<open>None\<close>). The store is the only caller of \<open>pushHistory\<close>, and
  each entry it builds defines \<open>before\<close> and \<open>after\<close> at every id of \<open>elementIds\<close>, which
  are the only keys \<open>undo\<close> and \<open>redo\<close> look up.
\<close>

record history_entry =
  h_id :: string
  h_timestamp :: rat
  h_type :: EntryType
  elementIds :: "string list"
  before :: "string \<Rightarrow> element option"
  after :: "string \<Rightarrow> element option"

text \<open>
  \<open>CanvasState\<close>. The \<open>elements\<close> object is an association list in insertion order,
  which is the order \<open>Object.keys\<close> and \<open>Object.values\<close> enumerate (for keys that are
  not canonical array indices). Assigning a key is \<open>AList.update\<close>, \<open>delete\<close> is
  \<open>AList.delete\<close>, reading is \<open>map_of\<close>.
\<close>

record state =
  elements :: "(string \<times> element) list"
  elementOrder :: "string list"
  transform :: Transform
  gridEnabled :: bool
  snapToGrid :: bool
  gridSize :: rat
  selectedIds :: "string list"
  hoveredId :: "string option"
  activeTool :: Tool
  currentStroke :: StrokeStyle
  currentFill :: FillStyle
  currentTextStyle :: TextStyle
  roughStyle :: bool
  darkMode :: bool
  history :: "history_entry list"
  historyIndex :: int
  isDrawing :: bool
  isPanning :: bool
  isResizing :: bool
  resizeHandle :: "ResizeHandle option"
  clipboard :: "element list"

definition DEFAULT_STROKE :: StrokeStyle where
  "DEFAULT_STROKE = \<lparr>stroke_color = ''#e5e7eb'', stroke_width = 2, stroke_style = Solid\<rparr>"

definition DEFAULT_FILL :: FillStyle where
  "DEFAULT_FILL = \<lparr>fill_type = FillSolid, fill_color = ''#ffffff''\<rparr>"

definition DEFAULT_TEXT_STYLE :: TextStyle where
  "DEFAULT_TEXT_STYLE = \<lparr>fontSize = 16, fontFamily = ''Inter, system-ui, sans-serif'',
     fontWeight = WeightNormal, fontStyle = StyleNormal, textAlign = AlignCenter,
     verticalAlign = AlignMiddle, text_color = ''#1e1e1e'', lineHeight = 7 / 5\<rparr>"

definition initialState :: state where
  "initialState = \<lparr>elements = [], elementOrder = [],
     transform = \<lparr>tx = 0, ty = 0, scale = 1\<rparr>,
     gridEnabled = True, snapToGrid = True, gridSize = 20,
     selectedIds = [], hoveredId = None, activeTool = SelectTool,
     currentStroke = DEFAULT_STROKE, currentFill = DEFAULT_FILL,
     currentTextStyle = DEFAULT_TEXT_STYLE, roughStyle = False, darkMode = False,
     history = [], historyIndex = - 1,
     isDrawing = False, isPanning = False, isResizing = False, resizeHandle = None,
     clipboard = []\<rparr>"


section \<open>Viewport transform (canvas-store.ts, Canvas.tsx)\<close>

text \<open>\<open>Object.assign(draft.transform, transform)\<close>.\<close>

definition assign_transform :: "Transform \<Rightarrow> TransformPartial \<Rightarrow> Transform" where
  "assign_transform t p =
     \<lparr>tx = (case p_tx p of None \<Rightarrow> tx t | Some v \<Rightarrow> v),
      ty = (case p_ty p of None \<Rightarrow> ty t | Some v \<Rightarrow> v),
      scale = (case p_scale p of None \<Rightarrow> scale t | Some v \<Rightarrow> v)\<rparr>"

definition setTransform :: "TransformPartial \<Rightarrow> state \<Rightarrow> state" where
  "setTransform p s = s\<lparr>transform := assign_transform (transform s) p\<rparr>"

definition zoomIn :: "state \<Rightarrow> state" where
  "zoomIn s = s\<lparr>transform := (transform s)\<lparr>scale := min (scale (transform s) * (6 / 5)) 10\<rparr>\<rparr>"

definition zoomOut :: "state \<Rightarrow> state" where
  "zoomOut s =
     s\<lparr>transform := (transform s)\<lparr>scale := max (scale (transform s) / (6 / 5)) (1 / 10)\<rparr>\<rparr>"

definition resetZoom :: "state \<Rightarrow> state" where
  "resetZoom s = s\<lparr>transform := \<lparr>tx = 0, ty = 0, scale = 1\<rparr>\<rparr>"

text \<open>
  \<open>screenToCanvas\<close> divides by the scale; at scale 0 the source yields a non-finite
  coordinate, here \<open>None\<close>.
\<close>

definition screenToCanvas :: "Transform \<Rightarrow> rat \<Rightarrow> rat \<Rightarrow> Point option" where
  "screenToCanvas t screenX screenY =
     (if scale t = 0 then None
      else Some \<lparr>px = (screenX - tx t) / scale t, py = (screenY - ty t) / scale t\<rparr>)"

text \<open>
  \<open>handleWheel\<close>, given the mouse position relative to the canvas rectangle and the
  wheel's \<open>deltaY\<close>, for a mounted canvas (the handler returns at once when the
  canvas element has no rectangle). At scale 0 the new offsets are not finite
  (\<open>None\<close>).
\<close>

definition handleWheel :: "rat \<Rightarrow> rat \<Rightarrow> rat \<Rightarrow> state \<Rightarrow> state option" where
  "handleWheel mouseX mouseY deltaY s =
     (let t = transform s;
          delta = (if deltaY > 0 then 9 / 10 else 11 / 10);
          newScale = min (max (scale t * delta) (1 / 10)) 10
      in if scale t = 0 then None
         else
           let newX = mouseX - (mouseX - tx t) * (newScale / scale t);
               newY = mouseY - (mouseY - ty t) * (newScale / scale t)
           in Some (setTransform \<lparr>p_tx = Some newX, p_ty = Some newY, p_scale = Some newScale\<rparr> s))"



section \<open>Scene store: elements (canvas-store.ts)\<close>

text \<open>\<open>Object.assign(draft.elements[id], updates, { updatedAt: Date.now() })\<close>.\<close>

definition assign_element :: "element \<Rightarrow> element_partial \<Rightarrow> rat \<Rightarrow> element" where
  "assign_element el u now =
     \<lparr>eid = (case u_id u of None \<Rightarrow> eid el | Some v \<Rightarrow> v),
      etype = (case u_type u of None \<Rightarrow> etype el | Some v \<Rightarrow> v),
      ex = (case u_x u of None \<Rightarrow> ex el | Some v \<Rightarrow> v),
      ey = (case u_y u of None \<Rightarrow> ey el | Some v \<Rightarrow> v),
      ewidth = (case u_width u of None \<Rightarrow> ewidth el | Some v \<Rightarrow> v),
      eheight = (case u_height u of None \<Rightarrow> eheight el | Some v \<Rightarrow> v),
      rotation = (case u_rotation u of None \<Rightarrow> rotation el | Some v \<Rightarrow> v),
      opacity = (case u_opacity u of None \<Rightarrow> opacity el | Some v \<Rightarrow> v),
      locked = (case u_locked u of None \<Rightarrow> locked el | Some v \<Rightarrow> v),
      groupId = (case u_groupId u of None \<Rightarrow> groupId el | Some v \<Rightarrow> v),
      zIndex = (case u_zIndex u of None \<Rightarrow> zIndex el | Some v \<Rightarrow> v),
      createdAt = (case u_createdAt u of None \<Rightarrow> createdAt el | Some v \<Rightarrow> v),
      updatedAt = now\<rparr>"

text \<open>\<open>history.slice(0, end)\<close>: a negative \<open>end\<close> counts from the end of the array.\<close>

definition slice0 :: "'a list \<Rightarrow> int \<Rightarrow> 'a list" where
  "slice0 xs e = (if e < 0 then take (nat (int (length xs) + e)) xs else take (nat e) xs)"

text \<open>
  \<open>pushHistory\<close>. \<open>hid\<close> is the result of \<open>createId()\<close> and \<open>ts\<close> that of \<open>Date.now()\<close>.
\<close>

definition pushHistory :: "history_entry \<Rightarrow> string \<Rightarrow> rat \<Rightarrow> state \<Rightarrow> state" where
  "pushHistory entry hid ts s =
     (let h = slice0 (history s) (historyIndex s + 1) @ [entry\<lparr>h_id := hid, h_timestamp := ts\<rparr>];
          idx = int (length h) - 1
      in if length h > 100 then s\<lparr>history := tl h, historyIndex := idx - 1\<rparr>
         else s\<lparr>history := h, historyIndex := idx\<rparr>)"

definition addElement :: "element \<Rightarrow> string \<Rightarrow> rat \<Rightarrow> state \<Rightarrow> state" where
  "addElement el hid ts s =
     pushHistory
       \<lparr>h_id = [], h_timestamp = 0, h_type = Add, elementIds = [eid el],
        before = (\<lambda>_. None)(eid el := None), after = (\<lambda>_. None)(eid el := Some el)\<rparr>
       hid ts
       (s\<lparr>elements := AList.update (eid el) el (elements s),
          elementOrder := elementOrder s @ [eid el]\<rparr>)"

definition updateElement ::
  "string \<Rightarrow> element_partial \<Rightarrow> rat \<Rightarrow> string \<Rightarrow> rat \<Rightarrow> state \<Rightarrow> state" where
  "updateElement i u now hid ts s =
     (case map_of (elements s) i of
        None \<Rightarrow> s
      | Some el \<Rightarrow>
          let el' = assign_element el u now
          in pushHistory
               \<lparr>h_id = [], h_timestamp = 0, h_type = Update, elementIds = [i],
                before = (\<lambda>_. None)(i := Some el), after = (\<lambda>_. None)(i := Some el')\<rparr>
               hid ts
               (s\<lparr>elements := AList.update i el' (elements s)\<rparr>))"

definition updateElementSilent :: "string \<Rightarrow> element_partial \<Rightarrow> rat \<Rightarrow> state \<Rightarrow> state" where
  "updateElementSilent i u now s =
     (case map_of (elements s) i of
        None \<Rightarrow> s
      | Some el \<Rightarrow> s\<lparr>elements := AList.update i (assign_element el u now) (elements s)\<rparr>)"

text \<open>
  Removing one id from the map and from the order: \<open>delete draft.elements[id]\<close>, then
  \<open>indexOf\<close> and \<open>splice(idx, 1)\<close>, which drop the first occurrence.
\<close>

definition remove_id ::
  "string \<Rightarrow> (string \<times> element) list \<times> string list \<Rightarrow> (string \<times> element) list \<times> string list"
  where
  "remove_id i d = (AList.delete i (fst d), remove1 i (snd d))"

definition deleteElements :: "string list \<Rightarrow> string \<Rightarrow> rat \<Rightarrow> state \<Rightarrow> state" where
  "deleteElements ids hid ts s =
     (let bf = foldl (\<lambda>b i. b(i := map_of (elements s) i)) (\<lambda>_. None) ids;
          af = foldl (\<lambda>a i. a(i := None)) (\<lambda>_. None) ids;
          d = foldl (\<lambda>d i. remove_id i d) (elements s, elementOrder s) ids
      in pushHistory
           \<lparr>h_id = [], h_timestamp = 0, h_type = Delete, elementIds = ids,
            before = bf, after = af\<rparr>
           hid ts
           (s\<lparr>elements := fst d, elementOrder := snd d,
              selectedIds := filter (\<lambda>i. i \<notin> set ids) (selectedIds s)\<rparr>))"

text \<open>
  Inserting freshly built elements, as \<open>duplicateElements\<close> and \<open>paste\<close> do:
  \<open>draft.elements[el.id] = el; draft.elementOrder.push(el.id)\<close> for each.
\<close>

definition insert_element ::
  "(string \<times> element) list \<times> string list \<Rightarrow> element \<Rightarrow> (string \<times> element) list \<times> string list"
  where
  "insert_element d el = (AList.update (eid el) el (fst d), snd d @ [eid el])"

definition insert_all :: "element list \<Rightarrow> state \<Rightarrow> state" where
  "insert_all news s =
     (let d = foldl insert_element (elements s, elementOrder s) news
      in s\<lparr>elements := fst d, elementOrder := snd d, selectedIds := map eid news\<rparr>)"

text \<open>
  A copy with a fresh id, an offset position and fresh timestamps. \<open>fresh k\<close> is the
  result of the \<open>k\<close>-th call of \<open>createId()\<close> in the operation and \<open>clock n\<close> that of the
  \<open>n\<close>-th call of \<open>Date.now()\<close>. The \<open>JSON.parse(JSON.stringify(el))\<close> round trip is the
  identity on the modelled fields.
\<close>

definition fresh_copy :: "(nat \<Rightarrow> string) \<Rightarrow> (nat \<Rightarrow> rat) \<Rightarrow> rat \<Rightarrow> rat \<Rightarrow> nat \<times> element \<Rightarrow> element"
  where
  "fresh_copy fresh clock dx dy ke =
     (snd ke)\<lparr>eid := fresh (fst ke), ex := ex (snd ke) + dx, ey := ey (snd ke) + dy,
               createdAt := clock (2 * fst ke), updatedAt := clock (2 * fst ke + 1)\<rparr>"

definition found_elements :: "string list \<Rightarrow> state \<Rightarrow> element list" where
  "found_elements ids s = List.map_filter (map_of (elements s)) ids"




section \<open>Scene store: selection and tool\<close>

definition setSelection :: "string list \<Rightarrow> state \<Rightarrow> state" where
  "setSelection ids s = s\<lparr>selectedIds := ids\<rparr>"



definition clearSelection :: "state \<Rightarrow> state" where
  "clearSelection s = s\<lparr>selectedIds := []\<rparr>"

definition is_unlocked :: "(string \<times> element) list \<Rightarrow> string \<Rightarrow> bool" where
  "is_unlocked els i = (case map_of els i of None \<Rightarrow> False | Some el \<Rightarrow> \<not> locked el)"

definition selectAll :: "state \<Rightarrow> state" where
  "selectAll s = s\<lparr>selectedIds := filter (is_unlocked (elements s)) (map fst (elements s))\<rparr>"




section \<open>History engine\<close>

text \<open>
  One iteration of the \<open>forEach\<close> in \<open>undo\<close> and \<open>redo\<close>: \<open>v\<close> is \<open>entry.before[id]\<close>
  (respectively \<open>entry.after[id]\<close>).
\<close>

definition restore ::
  "(string \<Rightarrow> element option) \<Rightarrow> (string \<times> element) list \<times> string list \<Rightarrow> string
     \<Rightarrow> (string \<times> element) list \<times> string list" where
  "restore snap d i =
     (case snap i of
        None \<Rightarrow> (AList.delete i (fst d), remove1 i (snd d))
      | Some el \<Rightarrow> (AList.update i el (fst d), if i \<in> set (snd d) then snd d else snd d @ [i]))"

text \<open>
  \<open>undo\<close>. When the cursor lies beyond the stack the entry is \<open>undefined\<close>, reading its
  \<open>elementIds\<close> throws inside the update and the store keeps its state.
\<close>

definition undo :: "state \<Rightarrow> state" where
  "undo s =
     (if historyIndex s < 0 then s
      else if int (length (history s)) \<le> historyIndex s then s
      else
        let entry = history s ! nat (historyIndex s);
            d = foldl (restore (before entry)) (elements s, elementOrder s) (elementIds entry)
        in s\<lparr>elements := fst d, elementOrder := snd d, historyIndex := historyIndex s - 1\<rparr>)"

text \<open>
  \<open>redo\<close>. A cursor below -1 that passes the guard reads an \<open>undefined\<close> entry, which
  throws in the same way.
\<close>

definition redo :: "state \<Rightarrow> state" where
  "redo s =
     (if historyIndex s \<ge> int (length (history s)) - 1 then s
      else if historyIndex s + 1 < 0 then s
      else
        let entry = history s ! nat (historyIndex s + 1);
            d = foldl (restore (after entry)) (elements s, elementOrder s) (elementIds entry)
        in s\<lparr>elements := fst d, elementOrder := snd d, historyIndex := historyIndex s + 1\<rparr>)"

definition selectCanUndo :: "state \<Rightarrow> bool" where
  "selectCanUndo s = (historyIndex s \<ge> 0)"

definition selectCanRedo :: "state \<Rightarrow> bool" where
  "selectCanRedo s = (historyIndex s < int (length (history s)) - 1)"


section \<open>Clipboard\<close>



text \<open>\<open>paste(offset = { x: 20, y: 20 })\<close>: \<open>None\<close> is the omitted argument.\<close>

definition paste :: "(nat \<Rightarrow> string) \<Rightarrow> (nat \<Rightarrow> rat) \<Rightarrow> Point option \<Rightarrow> state \<Rightarrow> state" where
  "paste fresh clock offset s =
     (let off = (case offset of None \<Rightarrow> \<lparr>px = 20, py = 20\<rparr> | Some p \<Rightarrow> p)
      in if clipboard s = [] then s
         else insert_all (map (fresh_copy fresh clock (px off) (py off))
                            (enumerate 0 (clipboard s))) s)"



section \<open>Z-order\<close>

definition bringToFront :: "string list \<Rightarrow> state \<Rightarrow> state" where
  "bringToFront ids s =
     s\<lparr>elementOrder := filter (\<lambda>i. i \<notin> set ids) (elementOrder s) @ ids\<rparr>"

definition sendToBack :: "string list \<Rightarrow> state \<Rightarrow> state" where
  "sendToBack ids s =
     s\<lparr>elementOrder := ids @ filter (\<lambda>i. i \<notin> set ids) (elementOrder s)\<rparr>"

text \<open>\<open>Array.prototype.indexOf\<close>: the first position, or \<open>-1\<close>.\<close>

fun indexOf :: "'a list \<Rightarrow> 'a \<Rightarrow> int" where
  "indexOf [] a = - 1"
| "indexOf (b # bs) a =
     (if b = a then 0 else (let r = indexOf bs a in if r < 0 then - 1 else r + 1))"

text \<open>The destructuring swap \<open>[a[i], a[j]] = [a[j], a[i]]\<close> at two positions of the array.\<close>

definition swap_at :: "'a list \<Rightarrow> nat \<Rightarrow> nat \<Rightarrow> 'a list" where
  "swap_at xs i j = xs[i := xs ! j, j := xs ! i]"

text \<open>
  One iteration of \<open>bringForward\<close>. For an id that is not in a non-empty order,
  \<open>indexOf\<close> is \<open>-1\<close>, the guard \<open>idx < length - 1\<close> holds and the swap writes
  \<open>undefined\<close> to position 0: the array is no list of ids any more (\<open>None\<close>).
\<close>

definition bringForward_step :: "string list \<Rightarrow> string \<Rightarrow> string list option" where
  "bringForward_step ord i =
     (let idx = indexOf ord i
      in if idx < int (length ord) - 1
         then (if idx < 0 then None else Some (swap_at ord (nat idx) (nat idx + 1)))
         else Some ord)"

definition bringForward_order :: "string list \<Rightarrow> string list \<Rightarrow> string list option" where
  "bringForward_order ord ids = foldl (\<lambda>r i. Option.bind r (\<lambda>ord. bringForward_step ord i)) (Some ord) ids"

definition bringForward :: "string list \<Rightarrow> state \<Rightarrow> state option" where
  "bringForward ids s = map_option (\<lambda>ord. s\<lparr>elementOrder := ord\<rparr>) (bringForward_order (elementOrder s) ids)"

definition sendBackward_step :: "string list \<Rightarrow> string \<Rightarrow> string list" where
  "sendBackward_step ord i =
     (let idx = indexOf ord i
      in if idx > 0 then swap_at ord (nat idx) (nat idx - 1) else ord)"

definition sendBackward :: "string list \<Rightarrow> state \<Rightarrow> state" where
  "sendBackward ids s = s\<lparr>elementOrder := foldl sendBackward_step (elementOrder s) ids\<rparr>"


section \<open>Grouping and clearing\<close>





section \<open>Import\<close>

text \<open>
  The value \<open>JSON.parse\<close> returns. An object is the list of its properties in
  enumeration order, with distinct keys. \<open>JSON.parse\<close> itself is the platform's: the
  model of \<open>importFromJSON\<close> takes its outcome, \<open>None\<close> when it throws a \<open>SyntaxError\<close>.
\<close>

datatype json =
  JNull | JBool bool | JNum rat | JStr string | JArr "json list" | JObj "(string \<times> json) list"

fun truthy :: "json \<Rightarrow> bool" where
  "truthy JNull = False"
| "truthy (JBool b) = b"
| "truthy (JNum n) = (n \<noteq> 0)"
| "truthy (JStr t) = (t \<noteq> [])"
| "truthy (JArr _) = True"
| "truthy (JObj _) = True"

text \<open>
  Reading the property \<open>elements\<close> or \<open>elementOrder\<close> of a non-null value; \<open>None\<close> is
  \<open>undefined\<close>. Only an object can carry these two properties.
\<close>

fun get_prop :: "json \<Rightarrow> string \<Rightarrow> json option" where
  "get_prop (JObj fs) k = map_of fs k"
| "get_prop _ k = None"

text \<open>The decimal digit of a number below ten.\<close>

definition digit_char :: "nat \<Rightarrow> char" where
  "digit_char n = ''0123456789'' ! (n mod 10)"

fun string_of_nat :: "nat \<Rightarrow> string" where
  "string_of_nat n =
     (if n < 10 then [digit_char n] else string_of_nat (n div 10) @ [digit_char (n mod 10)])"

text \<open>
  \<open>Object.keys\<close>: a \<open>TypeError\<close> (\<open>None\<close>) on \<open>undefined\<close> and \<open>null\<close>, no keys for a
  boolean or a number, the indices for a string or an array, the property names for an
  object.
\<close>

fun object_keys :: "json option \<Rightarrow> string list option" where
  "object_keys None = None"
| "object_keys (Some JNull) = None"
| "object_keys (Some (JBool _)) = Some []"
| "object_keys (Some (JNum _)) = Some []"
| "object_keys (Some (JStr t)) = Some (map string_of_nat [0..<length t])"
| "object_keys (Some (JArr xs)) = Some (map string_of_nat [0..<length xs])"
| "object_keys (Some (JObj fs)) = Some (map fst fs)"

text \<open>\<open>v || {}\<close> for a possibly undefined \<open>v\<close>.\<close>

definition or_empty_object :: "json option \<Rightarrow> json" where
  "or_empty_object v = (case v of None \<Rightarrow> JObj [] | Some j \<Rightarrow> if truthy j then j else JObj [])"

text \<open>
  The two values the \<open>try\<close> block assigns to \<open>draft.elements\<close> and
  \<open>draft.elementOrder\<close>, or \<open>None\<close> when it throws (\<open>JSON.parse\<close> fails, the data is
  \<open>null\<close>, or \<open>Object.keys\<close> is applied to \<open>undefined\<close> or \<open>null\<close>); the \<open>catch\<close>
  then logs, and the update that threw is discarded as a whole.
\<close>

definition import_values :: "json option \<Rightarrow> (json \<times> json) option" where
  "import_values parsed =
     (case parsed of
        None \<Rightarrow> None
      | Some JNull \<Rightarrow> None
      | Some data \<Rightarrow>
          let els = or_empty_object (get_prop data ''elements'')
          in (case get_prop data ''elementOrder'' of
                Some ord \<Rightarrow>
                  if truthy ord then Some (els, ord)
                  else map_option (\<lambda>ks. (els, JArr (map JStr ks)))
                         (object_keys (get_prop data ''elements''))
              | None \<Rightarrow>
                  map_option (\<lambda>ks. (els, JArr (map JStr ks)))
                    (object_keys (get_prop data ''elements''))))"

text \<open>Reading a JSON value at the types \<open>CanvasElement\<close>, \<open>Record<string, CanvasElement>\<close>
  and \<open>string[]\<close>; \<open>None\<close> when the value has another shape.\<close>

definition element_type_of :: "string \<Rightarrow> ElementType option" where
  "element_type_of t =
     map_of [(''rectangle'', Rectangle), (''ellipse'', Ellipse), (''diamond'', Diamond),
             (''triangle'', Triangle), (''line'', Line), (''arrow'', Arrow),
             (''freedraw'', Freedraw), (''text'', Text), (''image'', Image),
             (''frame'', Frame), (''sticky'', Sticky), (''connector'', Connector)] t"

definition num_field :: "(string \<times> json) list \<Rightarrow> string \<Rightarrow> rat option" where
  "num_field fs k = (case map_of fs k of Some (JNum n) \<Rightarrow> Some n | _ \<Rightarrow> None)"

definition str_field :: "(string \<times> json) list \<Rightarrow> string \<Rightarrow> string option" where
  "str_field fs k = (case map_of fs k of Some (JStr t) \<Rightarrow> Some t | _ \<Rightarrow> None)"

definition bool_field :: "(string \<times> json) list \<Rightarrow> string \<Rightarrow> bool option" where
  "bool_field fs k = (case map_of fs k of Some (JBool b) \<Rightarrow> Some b | _ \<Rightarrow> None)"

definition opt_str_field :: "(string \<times> json) list \<Rightarrow> string \<Rightarrow> string option option" where
  "opt_str_field fs k =
     (case map_of fs k of None \<Rightarrow> Some None | Some (JStr t) \<Rightarrow> Some (Some t) | _ \<Rightarrow> None)"

definition as_element :: "json \<Rightarrow> element option" where
  "as_element j =
     (case j of
        JObj fs \<Rightarrow>
          Option.bind (str_field fs ''id'') (\<lambda>i.
          Option.bind (Option.bind (str_field fs ''type'') element_type_of) (\<lambda>t.
          Option.bind (num_field fs ''x'') (\<lambda>vx.
          Option.bind (num_field fs ''y'') (\<lambda>vy.
          Option.bind (num_field fs ''width'') (\<lambda>w.
          Option.bind (num_field fs ''height'') (\<lambda>h.
          Option.bind (num_field fs ''rotation'') (\<lambda>r.
          Option.bind (num_field fs ''opacity'') (\<lambda>op.
          Option.bind (bool_field fs ''locked'') (\<lambda>l.
          Option.bind (opt_str_field fs ''groupId'') (\<lambda>g.
          Option.bind (num_field fs ''zIndex'') (\<lambda>z.
          Option.bind (num_field fs ''createdAt'') (\<lambda>c.
          Option.bind (num_field fs ''updatedAt'') (\<lambda>u.
            Some \<lparr>eid = i, etype = t, ex = vx, ey = vy, ewidth = w, eheight = h,
                  rotation = r, opacity = op, locked = l, groupId = g, zIndex = z,
                  createdAt = c, updatedAt = u\<rparr>)))))))))))))
      | _ \<Rightarrow> None)"

fun all_some :: "'a option list \<Rightarrow> 'a list option" where
  "all_some [] = Some []"
| "all_some (None # _) = None"
| "all_some (Some v # vs) = map_option ((#) v) (all_some vs)"

definition as_elements :: "json \<Rightarrow> (string \<times> element) list option" where
  "as_elements j =
     (case j of
        JObj fs \<Rightarrow> all_some (map (\<lambda>(k, v). map_option (Pair k) (as_element v)) fs)
      | _ \<Rightarrow> None)"

definition as_id :: "json \<Rightarrow> string option" where
  "as_id j = (case j of JStr t \<Rightarrow> Some t | _ \<Rightarrow> None)"

definition as_order :: "json \<Rightarrow> string list option" where
  "as_order j = (case j of JArr xs \<Rightarrow> all_some (map as_id xs) | _ \<Rightarrow> None)"

text \<open>
  The update \<open>importFromJSON\<close> makes once it has the two values: they are assigned as
  they are, whatever their shape, and selection and history are reset. \<open>Ill_typed\<close>
  records the two assigned values when they are no element map and id list, so that
  the store then holds values outside \<open>CanvasState\<close>.
\<close>

datatype import_result = Unmodified | Replaced state | Ill_typed json json

definition assign_document :: "json \<Rightarrow> json \<Rightarrow> state \<Rightarrow> import_result" where
  "assign_document e ord s =
     (case (as_elements e, as_order ord) of
        (Some els, Some ids) \<Rightarrow>
          Replaced (s\<lparr>elements := els, elementOrder := ids, selectedIds := [],
                      history := [], historyIndex := - 1\<rparr>)
      | _ \<Rightarrow> Ill_typed e ord)"

text \<open>The store after \<open>importFromJSON\<close>: unmodified when the \<open>try\<close> block threw.\<close>

definition importFromJSON :: "json option \<Rightarrow> state \<Rightarrow> import_result" where
  "importFromJSON parsed s =
     (case import_values parsed of
        None \<Rightarrow> Unmodified
      | Some (e, ord) \<Rightarrow> assign_document e ord s)"


section \<open>Zoom to fit\<close>

text \<open>
  \<open>getElementsBounds\<close>. The source folds \<open>Math.min\<close> and \<open>Math.max\<close> from
  \<open>Infinity\<close> and \<open>-Infinity\<close>; on a non-empty list that is the fold from the first
  element.
\<close>

fun getElementsBounds :: "element list \<Rightarrow> Bounds option" where
  "getElementsBounds [] = None"
| "getElementsBounds (e # es) =
     (let minX = foldl (\<lambda>m el. min m (ex el)) (ex e) es;
          minY = foldl (\<lambda>m el. min m (ey el)) (ey e) es;
          maxX = foldl (\<lambda>m el. max m (ex el + ewidth el)) (ex e + ewidth e) es;
          maxY = foldl (\<lambda>m el. max m (ey el + eheight el)) (ey e + eheight e) es
      in Some \<lparr>b_x = minX, b_y = minY, b_width = maxX - minX, b_height = maxY - minY\<rparr>)"

text \<open>
  Numbers with the non-finite values a division by zero produces, and the arithmetic
  of JavaScript on them: \<open>NaN\<close> is contagious, opposite infinities add to \<open>NaN\<close>, zero
  times an infinity is \<open>NaN\<close>.
\<close>

datatype num = Fin rat | PosInf | NegInf | NaN

text \<open>\<open>a / b\<close> for finite \<open>a\<close> and a finite \<open>b\<close> that is not negative zero.\<close>

definition js_div :: "rat \<Rightarrow> rat \<Rightarrow> num" where
  "js_div a b =
     (if b \<noteq> 0 then Fin (a / b) else if a > 0 then PosInf else if a < 0 then NegInf else NaN)"

fun js_min :: "num \<Rightarrow> num \<Rightarrow> num" where
  "js_min NaN _ = NaN"
| "js_min _ NaN = NaN"
| "js_min NegInf _ = NegInf"
| "js_min _ NegInf = NegInf"
| "js_min PosInf b = b"
| "js_min a PosInf = a"
| "js_min (Fin a) (Fin b) = Fin (min a b)"

fun js_max :: "num \<Rightarrow> num \<Rightarrow> num" where
  "js_max NaN _ = NaN"
| "js_max _ NaN = NaN"
| "js_max PosInf _ = PosInf"
| "js_max _ PosInf = PosInf"
| "js_max NegInf b = b"
| "js_max a NegInf = a"
| "js_max (Fin a) (Fin b) = Fin (max a b)"

fun js_neg :: "num \<Rightarrow> num" where
  "js_neg (Fin a) = Fin (- a)"
| "js_neg PosInf = NegInf"
| "js_neg NegInf = PosInf"
| "js_neg NaN = NaN"

fun js_add :: "num \<Rightarrow> num \<Rightarrow> num" where
  "js_add NaN _ = NaN"
| "js_add _ NaN = NaN"
| "js_add PosInf NegInf = NaN"
| "js_add NegInf PosInf = NaN"
| "js_add PosInf _ = PosInf"
| "js_add _ PosInf = PosInf"
| "js_add NegInf _ = NegInf"
| "js_add _ NegInf = NegInf"
| "js_add (Fin a) (Fin b) = Fin (a + b)"

definition js_sub :: "num \<Rightarrow> num \<Rightarrow> num" where
  "js_sub a b = js_add a (js_neg b)"

text \<open>The product of an infinity with a finite factor.\<close>

definition inf_times :: "bool \<Rightarrow> rat \<Rightarrow> num" where
  "inf_times positive b =
     (if b = 0 then NaN else if (0 < b) = positive then PosInf else NegInf)"

fun js_mul :: "num \<Rightarrow> num \<Rightarrow> num" where
  "js_mul NaN _ = NaN"
| "js_mul _ NaN = NaN"
| "js_mul (Fin a) (Fin b) = Fin (a * b)"
| "js_mul (Fin a) PosInf = inf_times True a"
| "js_mul (Fin a) NegInf = inf_times False a"
| "js_mul PosInf (Fin b) = inf_times True b"
| "js_mul NegInf (Fin b) = inf_times False b"
| "js_mul PosInf PosInf = PosInf"
| "js_mul PosInf NegInf = NegInf"
| "js_mul NegInf PosInf = NegInf"
| "js_mul NegInf NegInf = PosInf"

text \<open>
  A transform as the store can hold it after \<open>zoomToFit\<close>: any of its three numbers
  may be non-finite.
\<close>

record WideTransform =
  wx :: num
  wy :: num
  wscale :: num

text \<open>
  The transform \<open>zoomToFit\<close> assigns, \<open>None\<close> when it returns without assigning (no
  elements). \<open>innerWidth\<close> and \<open>innerHeight\<close> are the window's. Halving is the
  product with one half.
\<close>

definition zoomToFit_view :: "rat \<Rightarrow> rat \<Rightarrow> state \<Rightarrow> WideTransform option" where
  "zoomToFit_view innerWidth innerHeight s =
     (case getElementsBounds (map snd (elements s)) of
        None \<Rightarrow> None
      | Some bounds \<Rightarrow>
          let padding = 100;
              viewWidth = innerWidth - padding * 2;
              viewHeight = innerHeight - padding * 2;
              sc = js_min (js_min (js_div viewWidth (b_width bounds))
                                  (js_div viewHeight (b_height bounds))) (Fin 1)
          in Some \<lparr>wx = js_add (js_mul (Fin (- b_x bounds)) sc)
                           (js_mul (js_sub (Fin innerWidth) (js_mul (Fin (b_width bounds)) sc))
                              (Fin (1 / 2))),
                    wy = js_add (js_mul (Fin (- b_y bounds)) sc)
                           (js_mul (js_sub (Fin innerHeight) (js_mul (Fin (b_height bounds)) sc))
                              (Fin (1 / 2))),
                    wscale = sc\<rparr>)"

definition widen :: "Transform \<Rightarrow> WideTransform" where
  "widen t = \<lparr>wx = Fin (tx t), wy = Fin (ty t), wscale = Fin (scale t)\<rparr>"

definition finite_view :: "WideTransform \<Rightarrow> Transform option" where
  "finite_view w =
     (case (wx w, wy w, wscale w) of
        (Fin a, Fin b, Fin c) \<Rightarrow> Some \<lparr>tx = a, ty = b, scale = c\<rparr>
      | _ \<Rightarrow> None)"

text \<open>
  The store with a transform that may be non-finite: the second component is \<open>None\<close>
  when the \<open>transform\<close> field of the state is the store's transform, and holds the
  store's transform when one of its numbers is not finite (the field is then not
  read). The transform actions on such a store follow.
\<close>

type_synonym store = "state \<times> WideTransform option"

definition get_view :: "store \<Rightarrow> WideTransform" where
  "get_view st = (case snd st of None \<Rightarrow> widen (transform (fst st)) | Some w \<Rightarrow> w)"

definition put_view :: "WideTransform \<Rightarrow> state \<Rightarrow> store" where
  "put_view w s =
     (case finite_view w of None \<Rightarrow> (s, Some w) | Some t \<Rightarrow> (s\<lparr>transform := t\<rparr>, None))"

definition assign_view :: "WideTransform \<Rightarrow> TransformPartial \<Rightarrow> WideTransform" where
  "assign_view w p =
     \<lparr>wx = (case p_tx p of None \<Rightarrow> wx w | Some v \<Rightarrow> Fin v),
      wy = (case p_ty p of None \<Rightarrow> wy w | Some v \<Rightarrow> Fin v),
      wscale = (case p_scale p of None \<Rightarrow> wscale w | Some v \<Rightarrow> Fin v)\<rparr>"

definition store_setTransform :: "TransformPartial \<Rightarrow> store \<Rightarrow> store" where
  "store_setTransform p st = put_view (assign_view (get_view st) p) (fst st)"

definition store_zoomIn :: "store \<Rightarrow> store" where
  "store_zoomIn st =
     put_view ((get_view st)\<lparr>wscale := js_min (js_mul (wscale (get_view st)) (Fin (6 / 5))) (Fin 10)\<rparr>)
       (fst st)"

text \<open>Dividing by 1.2 is the product with 5/6.\<close>

definition store_zoomOut :: "store \<Rightarrow> store" where
  "store_zoomOut st =
     put_view ((get_view st)\<lparr>wscale := js_max (js_mul (wscale (get_view st)) (Fin (5 / 6))) (Fin (1 / 10))\<rparr>)
       (fst st)"

text \<open>\<open>zoomToFit\<close>, with the window's \<open>innerWidth\<close> and \<open>innerHeight\<close>.\<close>

definition zoomToFit :: "rat \<Rightarrow> rat \<Rightarrow> store \<Rightarrow> store" where
  "zoomToFit innerWidth innerHeight st =
     (case zoomToFit_view innerWidth innerHeight (fst st) of
        None \<Rightarrow> st
      | Some w \<Rightarrow> put_view w (fst st))"

definition store_resetZoom :: "store \<Rightarrow> store" where
  "store_resetZoom st = (resetZoom (fst st), None)"

section \<open>Pointer gestures (Canvas.tsx)\<close>

text \<open>\<open>Math.round\<close> rounds halves towards plus infinity.\<close>

definition js_round :: "rat \<Rightarrow> rat" where
  "js_round v = of_int \<lfloor>v + 1 / 2\<rfloor>"

text \<open>
  \<open>snap ? Math.round(v / gridSize) * gridSize : v\<close>; with a grid size of 0 the snapped
  value is not finite (\<open>None\<close>).
\<close>

definition snap_value :: "bool \<Rightarrow> rat \<Rightarrow> rat \<Rightarrow> rat option" where
  "snap_value snap grid v =
     (if \<not> snap then Some v else if grid = 0 then None else Some (js_round (v / grid) * grid))"

definition selectOrderedElements :: "state \<Rightarrow> element list" where
  "selectOrderedElements s = found_elements (elementOrder s) s"

definition contains_point :: "Point \<Rightarrow> element \<Rightarrow> bool" where
  "contains_point p el =
     (px p \<ge> ex el \<and> px p \<le> ex el + ewidth el \<and> py p \<ge> ey el \<and> py p \<le> ey el + eheight el)"

text \<open>\<open>findElementAtPoint\<close> scans from the last (topmost) element down.\<close>

definition findElementAtPoint :: "element list \<Rightarrow> Point \<Rightarrow> element option" where
  "findElementAtPoint els p = List.find (contains_point p) (rev els)"

text \<open>
  The \<open>select\<close> branch of \<open>handleMouseDown\<close> at a canvas point: the new store state and,
  when an element was hit, the start positions of the elements to move
  (\<open>draggedElementStart\<close>, a \<open>Map\<close> in insertion order).
\<close>

definition start_positions :: "element list \<Rightarrow> string list \<Rightarrow> (string \<times> Point) list" where
  "start_positions els ids =
     foldl (\<lambda>m i. case List.find (\<lambda>e. eid e = i) els of
                     None \<Rightarrow> m
                   | Some el \<Rightarrow> AList.update i \<lparr>px = ex el, py = ey el\<rparr> m) [] ids"

definition mouseDownSelect :: "Point \<Rightarrow> bool \<Rightarrow> state \<Rightarrow> state \<times> (string \<times> Point) list option"
  where
  "mouseDownSelect canvasPoint shiftKey s =
     (let els = selectOrderedElements s
      in case findElementAtPoint els canvasPoint of
           None \<Rightarrow> (clearSelection s, None)
         | Some clicked \<Rightarrow>
             if eid clicked \<in> set (selectedIds s)
             then (s, Some (start_positions els (selectedIds s)))
             else if shiftKey
             then (setSelection (selectedIds s @ [eid clicked]) s,
                   Some (start_positions els (selectedIds s @ [eid clicked])))
             else (setSelection [eid clicked] s, Some (start_positions els [eid clicked])))"

text \<open>
  The element-drag branch of \<open>handleMouseMove\<close>: every element of \<open>draggedElementStart\<close>
  is moved by the canvas-space delta through \<open>updateElementSilent\<close>. \<open>clock k\<close> is the
  time of the \<open>k\<close>-th update.
\<close>

definition drag_one ::
  "bool \<Rightarrow> rat \<Rightarrow> rat \<Rightarrow> rat \<Rightarrow> (nat \<Rightarrow> rat) \<Rightarrow> state option \<Rightarrow> nat \<times> string \<times> Point \<Rightarrow> state option"
  where
  "drag_one snap grid dx dy clock r kp =
     (case r of
        None \<Rightarrow> None
      | Some s \<Rightarrow>
          (case (snap_value snap grid (px (snd (snd kp)) + dx),
                 snap_value snap grid (py (snd (snd kp)) + dy)) of
             (Some newX, Some newY) \<Rightarrow>
               Some (updateElementSilent (fst (snd kp))
                       (no_updates\<lparr>u_x := Some newX, u_y := Some newY\<rparr>) (clock (fst kp)) s)
           | _ \<Rightarrow> None))"

definition dragMove ::
  "Point \<Rightarrow> (string \<times> Point) list \<Rightarrow> Point \<Rightarrow> (nat \<Rightarrow> rat) \<Rightarrow> state \<Rightarrow> state option" where
  "dragMove dragStartCanvas draggedElementStart canvasPoint clock s =
     (let dx = px canvasPoint - px dragStartCanvas;
          dy = py canvasPoint - py dragStartCanvas
      in foldl (drag_one (snapToGrid s) (gridSize s) dx dy clock) (Some s)
           (enumerate 0 draggedElementStart))"

text \<open>
  The resize branch of \<open>handleMouseMove\<close>, first the box before grid snapping: the
  \<open>switch\<close> over the handle (the rotation handle has no case), then the minimum size.
\<close>

fun resize_switch :: "ResizeHandle \<Rightarrow> element \<Rightarrow> rat \<Rightarrow> rat \<Rightarrow> rat \<times> rat \<times> rat \<times> rat" where
  "resize_switch NW el dx dy = (ex el + dx, ey el + dy, ewidth el - dx, eheight el - dy)"
| "resize_switch N el dx dy = (ex el, ey el + dy, ewidth el, eheight el - dy)"
| "resize_switch NE el dx dy = (ex el, ey el + dy, ewidth el + dx, eheight el - dy)"
| "resize_switch W el dx dy = (ex el + dx, ey el, ewidth el - dx, eheight el)"
| "resize_switch E el dx dy = (ex el, ey el, ewidth el + dx, eheight el)"
| "resize_switch SW el dx dy = (ex el + dx, ey el, ewidth el - dx, eheight el + dy)"
| "resize_switch S el dx dy = (ex el, ey el, ewidth el, eheight el + dy)"
| "resize_switch SE el dx dy = (ex el, ey el, ewidth el + dx, eheight el + dy)"
| "resize_switch RotationHandle el dx dy = (ex el, ey el, ewidth el, eheight el)"

definition minSize :: rat where
  "minSize = 20"

definition applyResize :: "element \<Rightarrow> ResizeHandle \<Rightarrow> rat \<Rightarrow> rat \<Rightarrow> Bounds" where
  "applyResize el h dx dy =
     (case resize_switch h el dx dy of
        (newX, newY, newWidth, newHeight) \<Rightarrow>
          \<lparr>b_x = (if newWidth < minSize \<and> includes_char h CHR ''w''
                   then ex el + ewidth el - minSize else newX),
           b_y = (if newHeight < minSize \<and> includes_char h CHR ''n''
                   then ey el + eheight el - minSize else newY),
           b_width = (if newWidth < minSize then minSize else newWidth),
           b_height = (if newHeight < minSize then minSize else newHeight)\<rparr>)"

text \<open>
  The whole branch once \<open>resizeStart\<close> is set: cumulative delta from the snapshot, the
  box, grid snapping of all four numbers, then one silent update of the selected
  element \<open>i\<close> (\<open>selectedIds[0]\<close>).
\<close>

definition resizeMove ::
  "ResizeHandle \<Rightarrow> element \<times> Point \<Rightarrow> Point \<Rightarrow> rat \<Rightarrow> string \<Rightarrow> state \<Rightarrow> state option" where
  "resizeMove h resizeStart canvasPoint now i s =
     (let el = fst resizeStart;
          dx = px canvasPoint - px (snd resizeStart);
          dy = py canvasPoint - py (snd resizeStart);
          b = applyResize el h dx dy;
          snap = snap_value (snapToGrid s) (gridSize s)
      in case (snap (b_x b), snap (b_y b), snap (b_width b), snap (b_height b)) of
           (Some newX, Some newY, Some newWidth, Some newHeight) \<Rightarrow>
             Some (updateElementSilent i
                     (no_updates\<lparr>u_x := Some newX, u_y := Some newY,
                                  u_width := Some newWidth, u_height := Some newHeight\<rparr>) now s)
         | _ \<Rightarrow> None)"


section \<open>Grid and transient flags\<close>






definition setResizing :: "bool \<Rightarrow> ResizeHandle option \<Rightarrow> state \<Rightarrow> state" where
  "setResizing b h s = s\<lparr>isResizing := b, resizeHandle := h\<rparr>"






section \<open>Style defaults\<close>

text \<open>\<open>Partial<StrokeStyle>\<close>, \<open>Partial<FillStyle>\<close> and \<open>Partial<TextStyle>\<close>, merged by
  \<open>Object.assign\<close>.\<close>

record StrokePartial =
  ps_color :: "string option"
  ps_width :: "rat option"
  ps_style :: "StrokeKind option"

record FillPartial =
  pf_type :: "FillKind option"
  pf_color :: "string option"

record TextStylePartial =
  pt_fontSize :: "rat option"
  pt_fontFamily :: "string option"
  pt_fontWeight :: "FontWeight option"
  pt_fontStyle :: "FontStyle option"
  pt_textAlign :: "TextAlign option"
  pt_verticalAlign :: "VerticalAlign option"
  pt_color :: "string option"
  pt_lineHeight :: "rat option"





section \<open>Alignment and distribution\<close>

datatype AlignmentType = ToLeft | ToCenter | ToRight | ToTop | ToMiddle | ToBottom




datatype Direction = Horizontal | Vertical




section \<open>Export\<close>

fun type_name :: "ElementType \<Rightarrow> string" where
  "type_name Rectangle = ''rectangle''"
| "type_name Ellipse = ''ellipse''"
| "type_name Diamond = ''diamond''"
| "type_name Triangle = ''triangle''"
| "type_name Line = ''line''"
| "type_name Arrow = ''arrow''"
| "type_name Freedraw = ''freedraw''"
| "type_name Text = ''text''"
| "type_name Image = ''image''"
| "type_name Frame = ''frame''"
| "type_name Sticky = ''sticky''"
| "type_name Connector = ''connector''"

text \<open>An element as \<open>JSON.stringify\<close> renders it: an undefined \<open>groupId\<close> is left out.\<close>

definition element_json :: "element \<Rightarrow> json" where
  "element_json el =
     JObj ([(''id'', JStr (eid el)), (''type'', JStr (type_name (etype el))),
            (''x'', JNum (ex el)), (''y'', JNum (ey el)),
            (''width'', JNum (ewidth el)), (''height'', JNum (eheight el)),
            (''rotation'', JNum (rotation el)), (''opacity'', JNum (opacity el)),
            (''locked'', JBool (locked el))]
           @ (case groupId el of None \<Rightarrow> [] | Some g \<Rightarrow> [(''groupId'', JStr g)])
           @ [(''zIndex'', JNum (zIndex el)), (''createdAt'', JNum (createdAt el)),
              (''updatedAt'', JNum (updatedAt el))])"

text \<open>
  \<open>exportToJSON\<close>: the document whose text the action returns; the store is left as
  it is.
\<close>

definition exportToJSON :: "state \<Rightarrow> json" where
  "exportToJSON s =
     JObj [(''version'', JNum 1),
           (''elements'', JObj (map (\<lambda>ke. (fst ke, element_json (snd ke))) (elements s))),
           (''elementOrder'', JArr (map JStr (elementOrder s)))]"


section \<open>The resize gesture in the component (Canvas.tsx, SelectionOverlay.tsx)\<close>

text \<open>
  \<open>handleMouseMove\<close> is memoised with \<open>useCallback\<close>. Its dependency list names
  \<open>isPanning\<close>, \<open>isDrawing\<close>, \<open>dragStart\<close>, \<open>transform\<close>, \<open>selectionBox\<close>,
  \<open>currentElement\<close>, \<open>activeTool\<close> and \<open>elements\<close>, but not \<open>resizeStart\<close>: the handler
  keeps the \<open>resizeStart\<close> of the render in which it was created until a listed value
  changes. \<open>elements\<close> is a new array after every update of the store, and only then.

  What the resize branch does with the \<open>resizeStart\<close> the handler sees, when no pan,
  marquee or drag is in progress: without one it takes the snapshot (the lazy
  initialisation) and returns; with one it resizes.
\<close>

datatype resize_effect =
    LazyInit "(element \<times> Point) option"
  | Resized "state option"
  | NotResizing

definition handleMouseMove_resize ::
  "(element \<times> Point) option \<Rightarrow> Point \<Rightarrow> rat \<Rightarrow> state \<Rightarrow> resize_effect" where
  "handleMouseMove_resize seen canvasPoint now s =
     (if isResizing s
      then (case (resizeHandle s, selectedIds s) of
              (Some h, [i]) \<Rightarrow>
                (case seen of
                   None \<Rightarrow>
                     LazyInit (map_option (\<lambda>el. (el, canvasPoint))
                                 (List.find (\<lambda>e. eid e = i) (selectOrderedElements s)))
                 | Some rs \<Rightarrow> Resized (resizeMove h rs canvasPoint now i s))
            | _ \<Rightarrow> NotResizing)
      else NotResizing)"

text \<open>
  A gesture in progress: the store, the component's \<open>resizeStart\<close> state, and the
  \<open>resizeStart\<close> that the memoised handler sees.
\<close>

record resize_gesture =
  g_store :: state
  g_resizeStart :: "(element \<times> Point) option"
  g_seen :: "(element \<times> Point) option"

text \<open>
  Pressing a handle stops the event and calls \<open>setResizing(true, handle)\<close>; the store
  update re-creates the handler, which sees the \<open>resizeStart\<close> of that moment (the
  previous gesture has reset it).
\<close>

definition resize_press :: "ResizeHandle \<Rightarrow> state \<Rightarrow> resize_gesture" where
  "resize_press h s =
     \<lparr>g_store = setResizing True (Some h) s, g_resizeStart = None, g_seen = None\<rparr>"

text \<open>
  One pointer move. Setting \<open>resizeStart\<close> changes no dependency, so the handler stays;
  a silent update of the store re-creates it with the current \<open>resizeStart\<close>. \<open>None\<close>
  when the snapped box is not finite.
\<close>

definition resize_move :: "resize_gesture \<Rightarrow> Point \<times> rat \<Rightarrow> resize_gesture option" where
  "resize_move g pn =
     (case handleMouseMove_resize (g_seen g) (fst pn) (snd pn) (g_store g) of
        LazyInit None \<Rightarrow> Some g
      | LazyInit (Some rs) \<Rightarrow> Some (g\<lparr>g_resizeStart := Some rs\<rparr>)
      | Resized None \<Rightarrow> None
      | Resized (Some s') \<Rightarrow> Some (g\<lparr>g_store := s', g_seen := g_resizeStart g\<rparr>)
      | NotResizing \<Rightarrow> Some g)"

definition resize_moves :: "resize_gesture \<Rightarrow> (Point \<times> rat) list \<Rightarrow> resize_gesture option" where
  "resize_moves g pns = foldl (\<lambda>r pn. Option.bind r (\<lambda>g. resize_move g pn)) (Some g) pns"

text \<open>
  Releasing the pointer: \<open>handleMouseUp\<close> ends the resize in the store, and the effect
  that watches the flag records the element's box with one \<open>updateElement\<close>.
\<close>

definition resize_release :: "rat \<Rightarrow> string \<Rightarrow> rat \<Rightarrow> resize_gesture \<Rightarrow> state" where
  "resize_release now hid ts g =
     (let s1 = (if isResizing (g_store g) then setResizing False None (g_store g) else g_store g)
      in case (g_resizeStart g, selectedIds s1) of
           (Some rs, i # _) \<Rightarrow>
             (case List.find (\<lambda>e. eid e = i) (selectOrderedElements s1) of
                None \<Rightarrow> s1
              | Some el \<Rightarrow>
                  updateElement i
                    (no_updates\<lparr>u_x := Some (ex el), u_y := Some (ey el),
                                 u_width := Some (ewidth el), u_height := Some (eheight el)\<rparr>)
                    now hid ts s1)
         | _ \<Rightarrow> s1)"

section \<open>Sequences of store operations\<close>

text \<open>
  The store's actions as data, each with the values the platform supplies to it
  (\<open>createId()\<close>, \<open>Date.now()\<close>, the window size, the outcome of \<open>JSON.parse\<close>).
\<close>

datatype op =
    AddElement element string rat
  | UpdateElement string element_partial rat string rat
  | UpdateElementSilent string element_partial rat
  | DeleteElements "string list" string rat
  | DuplicateElements "nat \<Rightarrow> string" "nat \<Rightarrow> rat" "string list"
  | SetSelection "string list"
  | AddToSelection string
  | RemoveFromSelection string
  | ClearSelection
  | SelectAll
  | SetHovered "string option"
  | SetTransform TransformPartial
  | ZoomIn
  | ZoomOut
  | ZoomToFit rat rat
  | ResetZoom
  | SetTool Tool
  | ToggleGrid
  | ToggleSnapToGrid
  | SetGridSize rat
  | SetStroke StrokePartial
  | SetFill FillPartial
  | SetTextStyle TextStylePartial
  | ToggleRoughStyle
  | SetDarkMode bool
  | Undo
  | Redo
  | SetDrawing bool
  | SetPanning bool
  | SetResizing bool "ResizeHandle option"
  | Copy
  | Cut string rat
  | Paste "nat \<Rightarrow> string" "nat \<Rightarrow> rat" "Point option"
  | BringToFront "string list"
  | SendToBack "string list"
  | BringForward "string list"
  | SendBackward "string list"
  | Group string "string list"
  | Ungroup string
  | AlignElements "string list" AlignmentType
  | DistributeElements "string list" Direction
  | ExportToJSON
  | ImportFromJSON "json option"
  | Clear





text \<open>The ids of the live elements: the keys of the element map.\<close>

definition live_ids :: "state \<Rightarrow> string set" where
  "live_ids s = fst ` set (elements s)"



definition selection_inv :: "state \<Rightarrow> bool" where
  "selection_inv s = (set (selectedIds s) \<subseteq> live_ids s)"






section \<open>Notions used in the statements, and sample data\<close>

definition sample_element :: element where
  "sample_element = \<lparr>eid = ''a'', etype = Rectangle, ex = 0, ey = 0, ewidth = 100, eheight = 100,
     rotation = 0, opacity = 1, locked = False, groupId = None, zIndex = 0,
     createdAt = 0, updatedAt = 0\<rparr>"

definition scale_in_range :: "state \<Rightarrow> bool" where
  "scale_in_range s = (1 / 10 \<le> scale (transform s) \<and> scale (transform s) \<le> 10)"

definition wide_state :: state where
  "wide_state = initialState\<lparr>elements := [(''a'', sample_element\<lparr>ewidth := 10000\<rparr>)],
                              elementOrder := [''a'']\<rparr>"

text \<open>The ids of \<open>ids\<close> in the relative order they have in the order \<open>ord\<close>.\<close>

definition moved_part :: "string list \<Rightarrow> string list \<Rightarrow> string list" where
  "moved_part ids ord = filter (\<lambda>i. i \<in> set ids) ord"

definition abc_state :: state where
  "abc_state = initialState\<lparr>elements := [(''a'', sample_element), (''b'', sample_element\<lparr>eid := ''b''\<rparr>),
                                          (''c'', sample_element\<lparr>eid := ''c''\<rparr>)],
                             elementOrder := [''a'', ''b'', ''c'']\<rparr>"

definition sample_clock :: "nat \<Rightarrow> rat" where
  "sample_clock k = 7"

definition locked_state :: state where
  "locked_state = initialState\<lparr>elements := [(''a'', sample_element\<lparr>locked := True\<rparr>)],
                                elementOrder := [''a'']\<rparr>"

text \<open>Two documents of the wrong shape: \<open>{"elements": 5}\<close> and
  \<open>{"elements": false, "elementOrder": ["x"]}\<close>.\<close>

definition number_doc :: json where
  "number_doc = JObj [(''elements'', JNum 5)]"

definition false_doc :: json where
  "false_doc = JObj [(''elements'', JBool False), (''elementOrder'', JArr [JStr ''x''])]"

text \<open>The document fields a successful import overwrites.\<close>

definition imported :: "(string \<times> element) list \<Rightarrow> string list \<Rightarrow> state \<Rightarrow> state" where
  "imported els ids s = s\<lparr>elements := els, elementOrder := ids, selectedIds := [],
                          history := [], historyIndex := - 1\<rparr>"

text \<open>
  A sequence of pushes, each with the id and timestamp it is stamped with, and the
  entry as stamped.
\<close>

definition stamp :: "history_entry \<times> string \<times> rat \<Rightarrow> history_entry" where
  "stamp p = (fst p)\<lparr>h_id := fst (snd p), h_timestamp := snd (snd p)\<rparr>"


text \<open>The entry \<open>undo\<close> reverts in a state, if any.\<close>

definition undo_entry :: "state \<Rightarrow> history_entry option" where
  "undo_entry s =
     (if 0 \<le> historyIndex s \<and> historyIndex s < int (length (history s))
      then Some (history s ! nat (historyIndex s)) else None)"

definition sample_entry :: history_entry where
  "sample_entry = \<lparr>h_id = [], h_timestamp = 0, h_type = Add, elementIds = [''a''],
     before = (\<lambda>_. None), after = (\<lambda>_. None)(''a'' := Some sample_element)\<rparr>"




definition sample_fresh :: "nat \<Rightarrow> string" where
  "sample_fresh k = CHR ''n'' # string_of_nat k"

text \<open>The store after one recorded mutation of element \<open>a\<close>, with \<open>a\<close> on the clipboard.\<close>

definition clip_state :: state where
  "clip_state = pushHistory sample_entry ''h'' 1
     (initialState\<lparr>elements := [(''a'', sample_element)], elementOrder := [''a''],
                    clipboard := [sample_element]\<rparr>)"


text \<open>The element of scenario E, selected, with grid snapping disabled.\<close>

definition resize_state :: state where
  "resize_state = initialState\<lparr>snapToGrid := False, elements := [(''a'', sample_element)],
                                elementOrder := [''a''], selectedIds := [''a'']\<rparr>"

text \<open>One element of width and height zero.\<close>

definition point_state :: state where
  "point_state = initialState\<lparr>elements := [(''a'', sample_element\<lparr>ewidth := 0, eheight := 0\<rparr>)],
                               elementOrder := [''a'']\<rparr>"




section \<open>Zoom anchor (C6)\<close>

lemma wheel_scale_pos:
  fixes sc d :: rat
  shows "0 < min (max (sc * d) (1 / 10)) 10"
  by (simp add: min_def max_def)

text \<open>
  C6. For a transform whose scale lies in [0.1, 10], any screen point and any wheel
  delta, the wheel zoom succeeds and the screen point under the cursor maps to the same
  canvas point under the new transform as under the old one, exactly over the rationals.
\<close>

theorem C6_zoom_anchor:
  assumes "1 / 10 \<le> scale (transform s)" and "scale (transform s) \<le> 10"
  shows "\<exists>s' p. handleWheel mouseX mouseY deltaY s = Some s'
           \<and> screenToCanvas (transform s') mouseX mouseY = Some p
           \<and> screenToCanvas (transform s) mouseX mouseY = Some p"
proof -
  define t where "t = transform s"
  define ns where "ns = min (max (scale t * (if deltaY > 0 then 9 / 10 else 11 / 10)) (1 / 10)) 10"
  have sc: "scale t \<noteq> 0" using assms by (simp add: t_def)
  have ns: "ns \<noteq> 0" using wheel_scale_pos [of "scale t" "if deltaY > 0 then 9 / 10 else 11 / 10"]
    by (simp add: ns_def)
  have hw: "handleWheel mouseX mouseY deltaY s =
      Some (setTransform \<lparr>p_tx = Some (mouseX - (mouseX - tx t) * (ns / scale t)),
                          p_ty = Some (mouseY - (mouseY - ty t) * (ns / scale t)),
                          p_scale = Some ns\<rparr> s)"
    using sc by (simp add: handleWheel_def Let_def t_def ns_def)
  have a: "(mouseX - (mouseX - (mouseX - tx t) * (ns / scale t))) / ns = (mouseX - tx t) / scale t"
    using sc ns by (simp add: field_simps)
  have b: "(mouseY - (mouseY - (mouseY - ty t) * (ns / scale t))) / ns = (mouseY - ty t) / scale t"
    using sc ns by (simp add: field_simps)
  show ?thesis
    unfolding hw using sc ns a b
    by (simp add: screenToCanvas_def setTransform_def assign_transform_def t_def)
qed

theorem C6_zoom_anchor_witness:
  "\<exists>s' p. handleWheel 100 50 (- 3) initialState = Some s'
     \<and> screenToCanvas (transform s') 100 50 = Some p
     \<and> screenToCanvas (transform initialState) 100 50 = Some p"
  using C6_zoom_anchor [of initialState 100 50 "- 3"]
  by (simp add: initialState_def)


section \<open>Inserting copies\<close>


lemma foldl_insert_element:
  "foldl insert_element d news =
     (foldl (\<lambda>els el. AList.update (eid el) el els) (fst d) news, snd d @ map eid news)"
  by (induction news arbitrary: d) (simp_all add: insert_element_def)

lemma map_eid_fresh_copy:
  "map eid (map (fresh_copy fresh clock dx dy) (enumerate n xs)) = map fresh [n..<n + length xs]"
  by (induction xs arbitrary: n) (simp_all add: fresh_copy_def upt_rec)

lemma insert_all_history:
  "history (insert_all news s) = history s" "historyIndex (insert_all news s) = historyIndex s"
  by (simp_all add: insert_all_def Let_def)
section \<open>Resize clamp (C8)\<close>


text \<open>
  The arithmetic of the resize branch, taken alone (Canvas.tsx, lines 334 to 400). For
  every element and every corner or edge handle: a width (height) that the cumulative
  delta takes below 20 is clamped to 20; the position is then moved only when the
  handle name contains \<open>w\<close> (for x) or \<open>n\<close> (for y), and so that the opposite edge
  stays where it was. A dimension that stays at 20 or above is kept. With grid snapping
  disabled a handler that sees the snapshot writes this box to the element.
\<close>

lemma applyResize_clamp:
  assumes "h \<noteq> RotationHandle"
  shows "(case resize_switch h el dx dy of
           (newX, newY, newWidth, newHeight) \<Rightarrow>
             (newWidth < 20 \<longrightarrow>
                b_width (applyResize el h dx dy) = 20
                \<and> (if includes_char h CHR ''w''
                    then b_x (applyResize el h dx dy) + b_width (applyResize el h dx dy)
                           = ex el + ewidth el
                    else b_x (applyResize el h dx dy) = ex el))
           \<and> (newHeight < 20 \<longrightarrow>
                b_height (applyResize el h dx dy) = 20
                \<and> (if includes_char h CHR ''n''
                    then b_y (applyResize el h dx dy) + b_height (applyResize el h dx dy)
                           = ey el + eheight el
                    else b_y (applyResize el h dx dy) = ey el))
           \<and> (20 \<le> newWidth \<longrightarrow>
                b_width (applyResize el h dx dy) = newWidth \<and> b_x (applyResize el h dx dy) = newX)
           \<and> (20 \<le> newHeight \<longrightarrow>
                b_height (applyResize el h dx dy) = newHeight \<and> b_y (applyResize el h dx dy) = newY))
         \<and> (\<not> snapToGrid s \<longrightarrow>
              resizeMove h (el, p0) \<lparr>px = px p0 + dx, py = py p0 + dy\<rparr> now i s
                = Some (updateElementSilent i
                     (no_updates\<lparr>u_x := Some (b_x (applyResize el h dx dy)),
                                  u_y := Some (b_y (applyResize el h dx dy)),
                                  u_width := Some (b_width (applyResize el h dx dy)),
                                  u_height := Some (b_height (applyResize el h dx dy))\<rparr>) now s))"
proof -
  have box: "(case resize_switch h el dx dy of
           (newX, newY, newWidth, newHeight) \<Rightarrow>
             (newWidth < 20 \<longrightarrow>
                b_width (applyResize el h dx dy) = 20
                \<and> (if includes_char h CHR ''w''
                    then b_x (applyResize el h dx dy) + b_width (applyResize el h dx dy)
                           = ex el + ewidth el
                    else b_x (applyResize el h dx dy) = ex el))
           \<and> (newHeight < 20 \<longrightarrow>
                b_height (applyResize el h dx dy) = 20
                \<and> (if includes_char h CHR ''n''
                    then b_y (applyResize el h dx dy) + b_height (applyResize el h dx dy)
                           = ey el + eheight el
                    else b_y (applyResize el h dx dy) = ey el))
           \<and> (20 \<le> newWidth \<longrightarrow>
                b_width (applyResize el h dx dy) = newWidth \<and> b_x (applyResize el h dx dy) = newX)
           \<and> (20 \<le> newHeight \<longrightarrow>
                b_height (applyResize el h dx dy) = newHeight \<and> b_y (applyResize el h dx dy) = newY))"
    using assms by (cases h) (simp_all add: applyResize_def includes_char_def minSize_def)
  have mv: "\<not> snapToGrid s \<longrightarrow>
              resizeMove h (el, p0) \<lparr>px = px p0 + dx, py = py p0 + dy\<rparr> now i s
                = Some (updateElementSilent i
                     (no_updates\<lparr>u_x := Some (b_x (applyResize el h dx dy)),
                                  u_y := Some (b_y (applyResize el h dx dy)),
                                  u_width := Some (b_width (applyResize el h dx dy)),
                                  u_height := Some (b_height (applyResize el h dx dy))\<rparr>) now s)"
    by (simp add: resizeMove_def Let_def snap_value_def)
  show ?thesis using box mv by blast
qed

lemma resize_moves_snoc:
  "resize_moves g (pns @ [pn]) = Option.bind (resize_moves g pns) (\<lambda>g. resize_move g pn)"
  by (simp add: resize_moves_def)

lemma resize_move_unseen:
  assumes "g_seen g = None"
  shows "\<exists>g'. resize_move g pn = Some g' \<and> g_store g' = g_store g \<and> g_seen g' = None"
proof (cases "handleMouseMove_resize None (fst pn) (snd pn) (g_store g)")
  case (LazyInit r)
  then show ?thesis using assms by (cases r) (auto simp: resize_move_def)
next
  case (Resized r)
  then have False
    by (auto simp: handleMouseMove_resize_def split: if_splits option.splits list.splits)
  then show ?thesis ..
next
  case NotResizing
  then show ?thesis using assms by (auto simp: resize_move_def)
qed

lemma resize_moves_unseen:
  assumes "g_seen g = None"
  shows "\<exists>g'. resize_moves g pns = Some g' \<and> g_store g' = g_store g \<and> g_seen g' = None"
proof (induction pns rule: rev_induct)
  case Nil
  show ?case using assms by (simp add: resize_moves_def)
next
  case (snoc pn pns)
  then obtain g1 where g1: "resize_moves g pns = Some g1" "g_store g1 = g_store g"
    "g_seen g1 = None" by blast
  from resize_move_unseen [OF g1(3), of pn] obtain g2
    where "resize_move g1 pn = Some g2" "g_store g2 = g_store g1" "g_seen g2 = None"
    by auto
  then show ?case using g1 by (simp add: resize_moves_snoc)
qed

text \<open>
  C8, evaluated on the code. The handler that serves the pointer moves of a resize
  gesture is the one created when the handle was pressed; it never sees the snapshot
  it takes, so whatever the moves are, the gesture leaves the store as the press left
  it. In scenario E (a 100 by 100 element, handle \<open>se\<close>, the pointer taken from
  (100, 100) to (10, 10), grid snapping disabled) the element is still 100 by 100 after
  the release, which only stamps it and records a history entry; the same move handed
  to a handler that sees the snapshot gives width and height 20 with x and y unchanged.
\<close>

theorem C8_resize_gesture:
  "(\<exists>rs. resize_moves (resize_press h s) pns
            = Some \<lparr>g_store = setResizing True (Some h) s, g_resizeStart = rs, g_seen = None\<rparr>)
   \<and> resize_moves (resize_press SE resize_state)
         [(\<lparr>px = 100, py = 100\<rparr>, 1), (\<lparr>px = 10, py = 10\<rparr>, 2)]
       = Some \<lparr>g_store = setResizing True (Some SE) resize_state,
                g_resizeStart = Some (sample_element, \<lparr>px = 10, py = 10\<rparr>), g_seen = None\<rparr>
   \<and> map_of (elements (resize_release 3 ''h'' 3
         \<lparr>g_store = setResizing True (Some SE) resize_state,
          g_resizeStart = Some (sample_element, \<lparr>px = 10, py = 10\<rparr>), g_seen = None\<rparr>)) ''a''
       = Some (sample_element\<lparr>updatedAt := 3\<rparr>)
   \<and> map_option (\<lambda>t. map_of (elements t) ''a'')
         (resizeMove SE (sample_element, \<lparr>px = 100, py = 100\<rparr>) \<lparr>px = 10, py = 10\<rparr> 2 ''a''
            (setResizing True (Some SE) resize_state))
       = Some (Some (sample_element\<lparr>ewidth := 20, eheight := 20, updatedAt := 2\<rparr>))"
proof -
  have a: "\<exists>rs. resize_moves (resize_press h s) pns
            = Some \<lparr>g_store = setResizing True (Some h) s, g_resizeStart = rs, g_seen = None\<rparr>"
  proof -
    obtain g where g: "resize_moves (resize_press h s) pns = Some g"
      "g_store g = g_store (resize_press h s)" "g_seen g = None"
      using resize_moves_unseen [of "resize_press h s" pns] by (auto simp: resize_press_def)
    have "g = \<lparr>g_store = setResizing True (Some h) s, g_resizeStart = g_resizeStart g,
               g_seen = None\<rparr>"
      using g(2,3) by (cases g) (simp add: resize_press_def)
    then show ?thesis using g(1) by metis
  qed
  have b: "resize_moves (resize_press SE resize_state)
         [(\<lparr>px = 100, py = 100\<rparr>, 1), (\<lparr>px = 10, py = 10\<rparr>, 2)]
       = Some \<lparr>g_store = setResizing True (Some SE) resize_state,
                g_resizeStart = Some (sample_element, \<lparr>px = 10, py = 10\<rparr>), g_seen = None\<rparr>"
    by (simp add: resize_moves_def resize_move_def resize_press_def handleMouseMove_resize_def
        setResizing_def resize_state_def initialState_def selectOrderedElements_def
        found_elements_def List.map_filter_def sample_element_def)
  have c: "map_of (elements (resize_release 3 ''h'' 3
         \<lparr>g_store = setResizing True (Some SE) resize_state,
          g_resizeStart = Some (sample_element, \<lparr>px = 10, py = 10\<rparr>), g_seen = None\<rparr>)) ''a''
       = Some (sample_element\<lparr>updatedAt := 3\<rparr>)"
    by (simp add: resize_release_def setResizing_def resize_state_def initialState_def
        selectOrderedElements_def found_elements_def List.map_filter_def updateElement_def
        pushHistory_def assign_element_def no_updates_def sample_element_def Let_def update_conv')
  have d: "map_option (\<lambda>t. map_of (elements t) ''a'')
         (resizeMove SE (sample_element, \<lparr>px = 100, py = 100\<rparr>) \<lparr>px = 10, py = 10\<rparr> 2 ''a''
            (setResizing True (Some SE) resize_state))
       = Some (Some (sample_element\<lparr>ewidth := 20, eheight := 20, updatedAt := 2\<rparr>))"
    by (simp add: resizeMove_def applyResize_def minSize_def includes_char_def snap_value_def
        setResizing_def resize_state_def initialState_def updateElementSilent_def
        assign_element_def no_updates_def sample_element_def Let_def update_conv')
  show ?thesis by (intro conjI) (fact a, fact b, fact c, fact d)
qed

section \<open>Scale range (C9)\<close>


lemma finite_view_Some:
  "finite_view w = Some t \<Longrightarrow> w = widen t"
  by (cases w) (auto simp: finite_view_def widen_def split: num.splits)

lemma get_put_view:
  "get_view (put_view w s) = w"
  by (auto simp: get_view_def put_view_def split: option.splits dest: finite_view_Some)

text \<open>On a store whose transform is finite the transform actions are those of the state.\<close>

lemma store_finite:
  "store_setTransform p (s, None) = (setTransform p s, None)"
  "store_zoomIn (s, None) = (zoomIn s, None)"
  "store_zoomOut (s, None) = (zoomOut s, None)"
  "store_resetZoom (s, None) = (resetZoom s, None)"
proof -
  show "store_setTransform p (s, None) = (setTransform p s, None)"
    by (cases "transform s")
      (simp add: store_setTransform_def put_view_def get_view_def assign_view_def widen_def
        finite_view_def setTransform_def assign_transform_def split: option.splits)
  show "store_zoomIn (s, None) = (zoomIn s, None)"
    by (cases "transform s")
      (simp add: store_zoomIn_def put_view_def get_view_def widen_def finite_view_def zoomIn_def)
  show "store_zoomOut (s, None) = (zoomOut s, None)"
    by (cases "transform s")
      (simp add: store_zoomOut_def put_view_def get_view_def widen_def finite_view_def
        zoomOut_def)
  show "store_resetZoom (s, None) = (resetZoom s, None)"
    by (simp add: store_resetZoom_def)
qed

lemma js_min_one:
  "js_min a (Fin 1) \<noteq> PosInf \<and> (\<forall>c. js_min a (Fin 1) = Fin c \<longrightarrow> c \<le> 1)"
  by (cases a) auto

lemma zoomToFit_view_scale:
  "zoomToFit_view w h s = Some v \<Longrightarrow> wscale v \<noteq> PosInf \<and> (\<forall>c. wscale v = Fin c \<longrightarrow> c \<le> 1)"
  using js_min_one
  by (auto simp: zoomToFit_view_def Let_def split: option.splits)

text \<open>
  C9 as stated fails: \<open>zoomToFit\<close> has no lower clamp (one element 10000 wide in a
  1000 by 800 window gives the scale 0.08; one element of size zero in a 200 by 200
  window gives \<open>NaN\<close>), and \<open>setTransform\<close> stores any scale it is given.
\<close>

theorem C9_scale_counterexample:
  "scale_in_range wide_state
   \<and> zoomToFit 1000 800 (wide_state, None)
       = (wide_state\<lparr>transform := \<lparr>tx = 100, ty = 396, scale = 2 / 25\<rparr>\<rparr>, None)
   \<and> \<not> scale_in_range (fst (zoomToFit 1000 800 (wide_state, None)))
   \<and> scale_in_range initialState
   \<and> \<not> scale_in_range (setTransform \<lparr>p_tx = None, p_ty = None, p_scale = Some 100\<rparr> initialState)
   \<and> scale_in_range point_state
   \<and> wscale (get_view (zoomToFit 200 200 (point_state, None))) = NaN"
  by (simp add: scale_in_range_def wide_state_def point_state_def initialState_def zoomToFit_def
      zoomToFit_view_def finite_view_def put_view_def get_view_def
      sample_element_def js_div_def js_sub_def setTransform_def assign_transform_def Let_def)

text \<open>
  C9, amended. Starting from a scale within [0.1, 10]: \<open>zoomIn\<close>, \<open>zoomOut\<close>,
  \<open>resetZoom\<close> and the wheel handler leave the scale within [0.1, 10]; \<open>setTransform\<close>
  does so when the scale it is given, if any, lies within [0.1, 10]; the scale after
  \<open>zoomToFit\<close> is never \<open>+Infinity\<close> and, when it is a finite number, is at most 10.
\<close>

theorem C9_scale_range:
  assumes "scale_in_range s"
  shows "scale_in_range (zoomIn s) \<and> scale_in_range (zoomOut s) \<and> scale_in_range (resetZoom s)
    \<and> (\<exists>s'. handleWheel mouseX mouseY deltaY s = Some s' \<and> scale_in_range s')
    \<and> ((case p_scale p of None \<Rightarrow> True | Some v \<Rightarrow> 1 / 10 \<le> v \<and> v \<le> 10)
          \<longrightarrow> scale_in_range (setTransform p s))
    \<and> wscale (get_view (zoomToFit innerWidth innerHeight (s, None))) \<noteq> PosInf
    \<and> (\<forall>c. wscale (get_view (zoomToFit innerWidth innerHeight (s, None))) = Fin c
          \<longrightarrow> c \<le> 10)"
proof -
  have a: "scale_in_range (zoomIn s)"
    using assms by (simp add: scale_in_range_def zoomIn_def min_def)
  have b: "scale_in_range (zoomOut s)"
    using assms by (simp add: scale_in_range_def zoomOut_def max_def)
  have c: "scale_in_range (resetZoom s)"
    by (simp add: scale_in_range_def resetZoom_def)
  have d: "\<exists>s'. handleWheel mouseX mouseY deltaY s = Some s' \<and> scale_in_range s'"
    using assms
    by (simp add: scale_in_range_def handleWheel_def Let_def setTransform_def
        assign_transform_def min_def max_def)
  have e: "(case p_scale p of None \<Rightarrow> True | Some v \<Rightarrow> 1 / 10 \<le> v \<and> v \<le> 10)
          \<longrightarrow> scale_in_range (setTransform p s)"
    using assms
    by (simp add: scale_in_range_def setTransform_def assign_transform_def split: option.splits)
  have f: "wscale (get_view (zoomToFit innerWidth innerHeight (s, None))) \<noteq> PosInf
    \<and> (\<forall>c. wscale (get_view (zoomToFit innerWidth innerHeight (s, None))) = Fin c
          \<longrightarrow> c \<le> 10)"
  proof (cases "zoomToFit_view innerWidth innerHeight s")
    case None
    then show ?thesis using assms
      by (simp add: zoomToFit_def get_view_def widen_def scale_in_range_def)
  next
    case (Some v)
    then have "get_view (zoomToFit innerWidth innerHeight (s, None)) = v"
      by (simp add: zoomToFit_def get_put_view)
    then show ?thesis using zoomToFit_view_scale [OF Some] by fastforce
  qed
  show ?thesis using a b c d e f by blast
qed

theorem C9_scale_range_witness:
  "scale_in_range initialState
   \<and> scale_in_range (zoomIn initialState) \<and> scale_in_range (zoomOut initialState)
   \<and> scale_in_range (setTransform \<lparr>p_tx = Some 5, p_ty = None, p_scale = Some 2\<rparr> initialState)
   \<and> wscale (get_view (zoomToFit 1000 800 (wide_state, None))) = Fin (2 / 25)
   \<and> (2 / 25 :: rat) \<le> 10"
proof -
  have i: "scale_in_range initialState"
    by (simp add: scale_in_range_def initialState_def)
  have w: "scale_in_range wide_state"
    by (simp add: scale_in_range_def initialState_def wide_state_def)
  have z: "wscale (get_view (zoomToFit 1000 800 (wide_state, None))) = Fin (2 / 25)"
    by (simp add: wide_state_def initialState_def zoomToFit_def zoomToFit_view_def
      put_view_def finite_view_def get_view_def widen_def sample_element_def js_div_def
      js_sub_def Let_def)
  show ?thesis
    using i z C9_scale_range [OF i, of 0 0 0 "\<lparr>p_tx = Some 5, p_ty = None, p_scale = Some 2\<rparr>" 1000 800]
      C9_scale_range [OF w, of 0 0 0 "\<lparr>p_tx = Some 5, p_ty = None, p_scale = Some 2\<rparr>" 1000 800]
    by auto
qed



section \<open>Z-order (C5)\<close>


lemma indexOf_ge: "- 1 \<le> indexOf xs a"
  by (induction xs) (auto simp: Let_def)


lemma indexOf_in:
  "a \<in> set xs \<Longrightarrow> 0 \<le> indexOf xs a \<and> indexOf xs a < int (length xs) \<and> xs ! nat (indexOf xs a) = a"
proof (induction xs)
  case Nil
  then show ?case by simp
next
  case (Cons b bs)
  show ?case
  proof (cases "b = a")
    case True
    then show ?thesis by simp
  next
    case False
    with Cons have "0 \<le> indexOf bs a \<and> indexOf bs a < int (length bs) \<and> bs ! nat (indexOf bs a) = a"
      by simp
    with False show ?thesis by (simp add: Let_def nat_add_distrib)
  qed
qed

lemma indexOf_nth:
  "distinct xs \<Longrightarrow> k < length xs \<Longrightarrow> indexOf xs (xs ! k) = int k"
proof (induction xs arbitrary: k)
  case Nil
  then show ?case by simp
next
  case (Cons b bs)
  show ?case
  proof (cases k)
    case 0
    then show ?thesis by simp
  next
    case (Suc m)
    with Cons.prems have "bs ! m \<noteq> b" "m < length bs" "distinct bs" by auto
    with Cons.IH [of m] Suc show ?thesis by (simp add: Let_def)
  qed
qed

lemma bringForward_step_in:
  assumes "i \<in> set ord"
  shows "bringForward_step ord i =
     Some (if nat (indexOf ord i) = length ord - 1 then ord
           else ord[nat (indexOf ord i) := ord ! (nat (indexOf ord i) + 1),
                    nat (indexOf ord i) + 1 := i])"
  using indexOf_in [OF assms]
  by (auto simp: bringForward_step_def Let_def swap_at_def)

lemma sendBackward_step_in:
  assumes "i \<in> set ord"
  shows "sendBackward_step ord i =
     (if nat (indexOf ord i) = 0 then ord
      else ord[nat (indexOf ord i) := ord ! (nat (indexOf ord i) - 1),
               nat (indexOf ord i) - 1 := i])"
  using indexOf_in [OF assms]
  by (auto simp: sendBackward_step_def Let_def swap_at_def)

lemma bringForward_step_index:
  assumes "i \<in> set ord" "distinct ord" "bringForward_step ord i = Some ord'"
  shows "indexOf ord' i = min (indexOf ord i + 1) (int (length ord) - 1)
         \<and> distinct ord' \<and> set ord' = set ord \<and> length ord' = length ord"
proof -
  define k where "k = nat (indexOf ord i)"
  have k: "k < length ord" "ord ! k = i" "indexOf ord i = int k"
    using indexOf_in [OF assms(1)] by (auto simp: k_def)
  show ?thesis
  proof (cases "k = length ord - 1")
    case True
    have o: "ord' = ord"
      using assms(3) bringForward_step_in [OF assms(1)] True by (simp add: k_def)
    have "indexOf ord i = int (length ord) - 1" using True k by simp
    then show ?thesis using o assms(2) by simp
  next
    case False
    then have k1: "k + 1 < length ord" using k by linarith
    have o: "ord' = ord[k := ord ! (k + 1), k + 1 := ord ! k]"
      using assms(3) bringForward_step_in [OF assms(1)] False k(2,3) by simp
    have d: "distinct ord'" unfolding o using assms(2) k(1) k1 by (simp add: distinct_swap)
    have l: "length ord' = length ord" unfolding o by simp
    have n: "ord' ! (k + 1) = i" unfolding o using k k1 by simp
    have "indexOf ord' (ord' ! (k + 1)) = int (k + 1)"
      using indexOf_nth [OF d, of "k + 1"] k1 l by simp
    then have "indexOf ord' i = int k + 1" using n by simp
    moreover have "set ord' = set ord" unfolding o using k(1) k1 by (simp add: set_swap)
    ultimately show ?thesis using d l k k1 by (simp add: min_def)
  qed
qed

lemma sendBackward_step_index:
  assumes "i \<in> set ord" "distinct ord"
  shows "indexOf (sendBackward_step ord i) i = max (indexOf ord i - 1) 0
         \<and> distinct (sendBackward_step ord i) \<and> set (sendBackward_step ord i) = set ord
         \<and> length (sendBackward_step ord i) = length ord"
proof -
  define k where "k = nat (indexOf ord i)"
  have k: "k < length ord" "ord ! k = i" "indexOf ord i = int k"
    using indexOf_in [OF assms(1)] by (auto simp: k_def)
  show ?thesis
  proof (cases "k = 0")
    case True
    have o: "sendBackward_step ord i = ord"
      using sendBackward_step_in [OF assms(1)] True by (simp add: k_def)
    have "indexOf ord i = 0" using True k by simp
    then show ?thesis using o assms(2) by simp
  next
    case False
    define ord' where "ord' = sendBackward_step ord i"
    have o: "ord' = ord[k := ord ! (k - 1), k - 1 := ord ! k]"
      using sendBackward_step_in [OF assms(1)] False k(2,3) by (simp add: ord'_def)
    have d: "distinct ord'" unfolding o using assms(2) k(1) by (simp add: distinct_swap)
    have l: "length ord' = length ord" unfolding o by simp
    have n: "ord' ! (k - 1) = i" unfolding o using k by simp
    have "indexOf ord' (ord' ! (k - 1)) = int (k - 1)"
      using indexOf_nth [OF d, of "k - 1"] k l by simp
    then have "indexOf ord' i = int k - 1" using n False by (simp add: of_nat_diff)
    moreover have "set ord' = set ord" unfolding o using k(1) by (simp add: set_swap)
    ultimately show ?thesis using d l k False unfolding ord'_def [symmetric] by (simp add: max_def)
  qed
qed


lemma bringForward_order_ok:
  assumes "distinct ord" "set ids \<subseteq> set ord"
  shows "\<exists>ord'. bringForward_order ord ids = Some ord' \<and> distinct ord' \<and> set ord' = set ord"
  using assms
proof (induction ids rule: rev_induct)
  case Nil
  then show ?case by (simp add: bringForward_order_def)
next
  case (snoc i ids)
  then obtain o1 where o1: "bringForward_order ord ids = Some o1" "distinct o1" "set o1 = set ord"
    by auto
  have i: "i \<in> set o1" using snoc.prems o1 by simp
  obtain o2 where o2: "bringForward_step o1 i = Some o2"
    using bringForward_step_in [OF i] by simp
  have "distinct o2 \<and> set o2 = set o1"
    using bringForward_step_index [OF i o1(2) o2] by simp
  then show ?case using o1 o2 by (simp add: bringForward_order_def)
qed

lemma sendBackward_order_ok:
  assumes "distinct ord" "set ids \<subseteq> set ord"
  shows "distinct (foldl sendBackward_step ord ids) \<and> set (foldl sendBackward_step ord ids) = set ord"
  using assms
proof (induction ids rule: rev_induct)
  case Nil
  then show ?case by simp
next
  case (snoc i ids)
  then have o1: "distinct (foldl sendBackward_step ord ids)"
    "set (foldl sendBackward_step ord ids) = set ord" by auto
  have i: "i \<in> set (foldl sendBackward_step ord ids)" using snoc.prems o1 by simp
  show ?case using sendBackward_step_index [OF i o1(1)] o1 by simp
qed

lemma moved_part_front:
  "moved_part ids (filter (\<lambda>i. i \<notin> set ids) ord @ ids) = ids"
  "moved_part ids (ids @ filter (\<lambda>i. i \<notin> set ids) ord) = ids"
  by (simp_all add: moved_part_def filter_id_conv)

lemma others_front:
  "filter (\<lambda>i. i \<notin> set ids) (filter (\<lambda>i. i \<notin> set ids) ord @ ids) = filter (\<lambda>i. i \<notin> set ids) ord"
  "filter (\<lambda>i. i \<notin> set ids) (ids @ filter (\<lambda>i. i \<notin> set ids) ord) = filter (\<lambda>i. i \<notin> set ids) ord"
  by (simp_all add: filter_empty_conv)

lemma bringForward_fold_None:
  "foldl (\<lambda>r i. Option.bind r (\<lambda>ord. bringForward_step ord i)) None ids = None"
  by (induction ids) simp_all

lemma bringForward_single:
  "bringForward [i] s
     = map_option (\<lambda>ord. s\<lparr>elementOrder := ord\<rparr>) (bringForward_step (elementOrder s) i)"
  by (simp add: bringForward_def bringForward_order_def)

lemma bringForward_Cons:
  "bringForward (i # ids) s = Option.bind (bringForward [i] s) (bringForward ids)"
proof (cases "bringForward_step (elementOrder s) i")
  case None
  then show ?thesis
    by (simp add: bringForward_def bringForward_order_def bringForward_fold_None)
next
  case (Some ord)
  then show ?thesis
    by (simp add: bringForward_def bringForward_order_def option.map_comp comp_def)
qed

lemma sendBackward_single:
  "sendBackward [i] s = s\<lparr>elementOrder := sendBackward_step (elementOrder s) i\<rparr>"
  by (simp add: sendBackward_def)

lemma sendBackward_Cons:
  "sendBackward (i # ids) s = sendBackward ids (sendBackward [i] s)"
  by (simp add: sendBackward_def)

text \<open>
  C5, amended. \<open>bringToFront\<close> leaves the given ids at the end of the order and
  \<open>sendToBack\<close> at the start, in both cases in the sequence in which the argument
  lists them; the other ids keep their relative order. The moved ids therefore keep the
  relative order they had in the original order exactly when the caller lists them in
  that order. Scenario D holds. On a duplicate-free order, \<open>bringForward\<close> of one id of
  the order swaps the id with its successor unless it is last, and \<open>sendBackward\<close> of
  one id swaps it with its predecessor unless it is first. \<open>bringForward\<close> and
  \<open>sendBackward\<close> of a list of ids do this for one id after the other, each on the
  order the one before has left; for ids of a duplicate-free order the result is a
  permutation of the order.
\<close>

theorem C5_zorder:
  "moved_part ids (elementOrder (bringToFront ids s)) = ids
   \<and> drop (length (elementOrder (bringToFront ids s)) - length ids)
        (elementOrder (bringToFront ids s)) = ids
   \<and> filter (\<lambda>i. i \<notin> set ids) (elementOrder (bringToFront ids s))
        = filter (\<lambda>i. i \<notin> set ids) (elementOrder s)
   \<and> (moved_part ids (elementOrder (bringToFront ids s)) = moved_part ids (elementOrder s)
        \<longleftrightarrow> ids = moved_part ids (elementOrder s))
   \<and> moved_part ids (elementOrder (sendToBack ids s)) = ids
   \<and> take (length ids) (elementOrder (sendToBack ids s)) = ids
   \<and> filter (\<lambda>i. i \<notin> set ids) (elementOrder (sendToBack ids s))
        = filter (\<lambda>i. i \<notin> set ids) (elementOrder s)
   \<and> (moved_part ids (elementOrder (sendToBack ids s)) = moved_part ids (elementOrder s)
        \<longleftrightarrow> ids = moved_part ids (elementOrder s))
   \<and> (elementOrder s = [''a'', ''b'', ''c''] \<longrightarrow>
        elementOrder (bringToFront [''b''] s) = [''a'', ''c'', ''b'']
        \<and> elementOrder (sendToBack [''c''] s) = [''c'', ''a'', ''b''])
   \<and> (distinct (elementOrder t) \<and> i \<in> set (elementOrder t) \<longrightarrow>
        bringForward [i] t
          = Some (t\<lparr>elementOrder :=
                      if indexOf (elementOrder t) i = int (length (elementOrder t)) - 1
                      then elementOrder t
                      else swap_at (elementOrder t) (nat (indexOf (elementOrder t) i))
                             (nat (indexOf (elementOrder t) i) + 1)\<rparr>)
        \<and> indexOf (elementOrder (the (bringForward [i] t))) i
            = min (indexOf (elementOrder t) i + 1) (int (length (elementOrder t)) - 1)
        \<and> sendBackward [i] t
          = t\<lparr>elementOrder :=
                 if indexOf (elementOrder t) i = 0 then elementOrder t
                 else swap_at (elementOrder t) (nat (indexOf (elementOrder t) i))
                        (nat (indexOf (elementOrder t) i) - 1)\<rparr>
        \<and> indexOf (elementOrder (sendBackward [i] t)) i = max (indexOf (elementOrder t) i - 1) 0)
   \<and> bringForward [] s = Some s
   \<and> bringForward (j # ids) s = Option.bind (bringForward [j] s) (bringForward ids)
   \<and> sendBackward [] s = s
   \<and> sendBackward (j # ids) s = sendBackward ids (sendBackward [j] s)
   \<and> (distinct (elementOrder s) \<and> set ids \<subseteq> set (elementOrder s) \<longrightarrow>
        (\<exists>s'. bringForward ids s = Some s' \<and> distinct (elementOrder s')
               \<and> set (elementOrder s') = set (elementOrder s))
        \<and> distinct (elementOrder (sendBackward ids s))
        \<and> set (elementOrder (sendBackward ids s)) = set (elementOrder s))"
proof -
  have f: "moved_part ids (elementOrder (bringToFront ids s)) = ids"
    by (simp add: bringToFront_def moved_part_front)
  have b: "moved_part ids (elementOrder (sendToBack ids s)) = ids"
    by (simp add: sendToBack_def moved_part_front)
  have f2: "drop (length (elementOrder (bringToFront ids s)) - length ids)
        (elementOrder (bringToFront ids s)) = ids"
    by (simp add: bringToFront_def)
  have b2: "take (length ids) (elementOrder (sendToBack ids s)) = ids"
    by (simp add: sendToBack_def)
  have f3: "filter (\<lambda>i. i \<notin> set ids) (elementOrder (bringToFront ids s))
        = filter (\<lambda>i. i \<notin> set ids) (elementOrder s)"
    by (simp add: bringToFront_def others_front)
  have b3: "filter (\<lambda>i. i \<notin> set ids) (elementOrder (sendToBack ids s))
        = filter (\<lambda>i. i \<notin> set ids) (elementOrder s)"
    by (simp add: sendToBack_def others_front)
  have f4: "moved_part ids (elementOrder (bringToFront ids s)) = moved_part ids (elementOrder s)
        \<longleftrightarrow> ids = moved_part ids (elementOrder s)"
    unfolding f by simp
  have b4: "moved_part ids (elementOrder (sendToBack ids s)) = moved_part ids (elementOrder s)
        \<longleftrightarrow> ids = moved_part ids (elementOrder s)"
    unfolding b by simp
  have d: "elementOrder s = [''a'', ''b'', ''c''] \<longrightarrow>
        elementOrder (bringToFront [''b''] s) = [''a'', ''c'', ''b'']
        \<and> elementOrder (sendToBack [''c''] s) = [''c'', ''a'', ''b'']"
    by (simp add: bringToFront_def sendToBack_def)
  have st: "distinct (elementOrder t) \<and> i \<in> set (elementOrder t) \<longrightarrow>
        bringForward [i] t
          = Some (t\<lparr>elementOrder :=
                      if indexOf (elementOrder t) i = int (length (elementOrder t)) - 1
                      then elementOrder t
                      else swap_at (elementOrder t) (nat (indexOf (elementOrder t) i))
                             (nat (indexOf (elementOrder t) i) + 1)\<rparr>)
        \<and> indexOf (elementOrder (the (bringForward [i] t))) i
            = min (indexOf (elementOrder t) i + 1) (int (length (elementOrder t)) - 1)
        \<and> sendBackward [i] t
          = t\<lparr>elementOrder :=
                 if indexOf (elementOrder t) i = 0 then elementOrder t
                 else swap_at (elementOrder t) (nat (indexOf (elementOrder t) i))
                        (nat (indexOf (elementOrder t) i) - 1)\<rparr>
        \<and> indexOf (elementOrder (sendBackward [i] t)) i = max (indexOf (elementOrder t) i - 1) 0"
  proof
    define ord where "ord = elementOrder t"
    assume a: "distinct (elementOrder t) \<and> i \<in> set (elementOrder t)"
    then have i: "i \<in> set ord" and dd: "distinct ord" by (simp_all add: ord_def)
    have r: "0 \<le> indexOf ord i" "indexOf ord i < int (length ord)"
      using indexOf_in [OF i] by simp_all
    have s1: "bringForward_step ord i
          = Some (if indexOf ord i = int (length ord) - 1 then ord
                  else swap_at ord (nat (indexOf ord i)) (nat (indexOf ord i) + 1))"
      using r by (simp add: bringForward_step_def Let_def)
    have s2: "sendBackward_step ord i
          = (if indexOf ord i = 0 then ord
             else swap_at ord (nat (indexOf ord i)) (nat (indexOf ord i) - 1))"
      using r by (simp add: sendBackward_step_def Let_def)
    obtain o' where o': "bringForward_step ord i = Some o'" using s1 by simp
    have s3: "indexOf o' i = min (indexOf ord i + 1) (int (length ord) - 1)"
      using bringForward_step_index [OF i dd o'] by simp
    have s4: "indexOf (sendBackward_step ord i) i = max (indexOf ord i - 1) 0"
      using sendBackward_step_index [OF i dd] by simp
    have t1: "bringForward [i] t
          = Some (t\<lparr>elementOrder :=
                      if indexOf ord i = int (length ord) - 1 then ord
                      else swap_at ord (nat (indexOf ord i)) (nat (indexOf ord i) + 1)\<rparr>)"
      unfolding bringForward_single ord_def [symmetric] s1 by simp
    have t3: "indexOf (elementOrder (the (bringForward [i] t))) i
            = min (indexOf ord i + 1) (int (length ord) - 1)"
      unfolding bringForward_single ord_def [symmetric] o' using s3 by simp
    have t2: "sendBackward [i] t
          = t\<lparr>elementOrder :=
                 if indexOf ord i = 0 then ord
                 else swap_at ord (nat (indexOf ord i)) (nat (indexOf ord i) - 1)\<rparr>"
      unfolding sendBackward_single ord_def [symmetric] s2 by simp
    have t4: "indexOf (elementOrder (sendBackward [i] t)) i = max (indexOf ord i - 1) 0"
      unfolding sendBackward_single ord_def [symmetric] using s4 by simp
    show "bringForward [i] t
          = Some (t\<lparr>elementOrder :=
                      if indexOf (elementOrder t) i = int (length (elementOrder t)) - 1
                      then elementOrder t
                      else swap_at (elementOrder t) (nat (indexOf (elementOrder t) i))
                             (nat (indexOf (elementOrder t) i) + 1)\<rparr>)
        \<and> indexOf (elementOrder (the (bringForward [i] t))) i
            = min (indexOf (elementOrder t) i + 1) (int (length (elementOrder t)) - 1)
        \<and> sendBackward [i] t
          = t\<lparr>elementOrder :=
                 if indexOf (elementOrder t) i = 0 then elementOrder t
                 else swap_at (elementOrder t) (nat (indexOf (elementOrder t) i))
                        (nat (indexOf (elementOrder t) i) - 1)\<rparr>
        \<and> indexOf (elementOrder (sendBackward [i] t)) i = max (indexOf (elementOrder t) i - 1) 0"
      using t1 t2 t3 t4 unfolding ord_def by (intro conjI)
  qed
  have sg: "bringForward [] s = Some s"
    by (simp add: bringForward_def bringForward_order_def)
  have sg2: "bringForward (j # ids) s = Option.bind (bringForward [j] s) (bringForward ids)"
    by (rule bringForward_Cons)
  have sg3: "sendBackward [] s = s" by (simp add: sendBackward_def)
  have sg4: "sendBackward (j # ids) s = sendBackward ids (sendBackward [j] s)"
    by (rule sendBackward_Cons)
  have sq: "distinct (elementOrder s) \<and> set ids \<subseteq> set (elementOrder s) \<longrightarrow>
        (\<exists>s'. bringForward ids s = Some s' \<and> distinct (elementOrder s')
               \<and> set (elementOrder s') = set (elementOrder s))
        \<and> distinct (elementOrder (sendBackward ids s))
        \<and> set (elementOrder (sendBackward ids s)) = set (elementOrder s)"
  proof
    assume a: "distinct (elementOrder s) \<and> set ids \<subseteq> set (elementOrder s)"
    then obtain o' where o': "bringForward_order (elementOrder s) ids = Some o'"
      "distinct o'" "set o' = set (elementOrder s)"
      using bringForward_order_ok by blast
    have x: "\<exists>s'. bringForward ids s = Some s' \<and> distinct (elementOrder s')
               \<and> set (elementOrder s') = set (elementOrder s)"
      using o' by (simp add: bringForward_def)
    have y: "distinct (elementOrder (sendBackward ids s))
        \<and> set (elementOrder (sendBackward ids s)) = set (elementOrder s)"
      using a sendBackward_order_ok by (simp add: sendBackward_def)
    show "(\<exists>s'. bringForward ids s = Some s' \<and> distinct (elementOrder s')
               \<and> set (elementOrder s') = set (elementOrder s))
        \<and> distinct (elementOrder (sendBackward ids s))
        \<and> set (elementOrder (sendBackward ids s)) = set (elementOrder s)"
      using x y by blast
  qed
  show ?thesis
    by (intro conjI)
      (fact f, fact f2, fact f3, fact f4, fact b, fact b2, fact b3, fact b4, fact d, fact st,
       fact sg, fact sg2, fact sg3, fact sg4, fact sq)
qed

text \<open>
  C5 as stated fails: the moved ids come out in the argument's sequence, not in the
  sequence they had in the order.
\<close>

theorem C5_zorder_counterexample:
  "set [''c'', ''a''] \<subseteq> set (elementOrder abc_state)
   \<and> elementOrder (bringToFront [''c'', ''a''] abc_state) = [''b'', ''c'', ''a'']
   \<and> moved_part [''c'', ''a''] (elementOrder abc_state) = [''a'', ''c'']
   \<and> moved_part [''c'', ''a''] (elementOrder (bringToFront [''c'', ''a''] abc_state)) = [''c'', ''a'']
   \<and> elementOrder (sendToBack [''c'', ''a''] abc_state) = [''c'', ''a'', ''b'']"
  by (simp add: abc_state_def initialState_def bringToFront_def sendToBack_def moved_part_def)

theorem C5_zorder_witness:
  "elementOrder (bringToFront [''b''] abc_state) = [''a'', ''c'', ''b'']
   \<and> elementOrder (sendToBack [''c''] abc_state) = [''c'', ''a'', ''b'']
   \<and> distinct (elementOrder abc_state) \<and> ''a'' \<in> set (elementOrder abc_state)
   \<and> bringForward [''a''] abc_state = Some (abc_state\<lparr>elementOrder := [''b'', ''a'', ''c'']\<rparr>)
   \<and> sendBackward [''a''] abc_state = abc_state
   \<and> bringForward [''a'', ''a''] abc_state
       = Option.bind (bringForward [''a''] abc_state) (bringForward [''a''])
   \<and> set [''c'', ''b''] \<subseteq> set (elementOrder abc_state)
   \<and> distinct (elementOrder (sendBackward [''c'', ''b''] abc_state))"
proof -
  have o: "elementOrder abc_state = [''a'', ''b'', ''c'']"
    by (simp add: abc_state_def initialState_def)
  have d: "distinct (elementOrder abc_state) \<and> ''a'' \<in> set (elementOrder abc_state)"
    using o by simp
  have e: "distinct (elementOrder abc_state) \<and> set [''c'', ''b''] \<subseteq> set (elementOrder abc_state)"
    using o by simp
  have r: "abc_state\<lparr>elementOrder := [''a'', ''b'', ''c'']\<rparr> = abc_state"
    using o by (metis state.surjective state.update_convs(2))
  note c5 = C5_zorder [of "[''c'', ''b'']" abc_state abc_state "''a''" "''a''"]
  have bf: "bringForward [''a''] abc_state = Some (abc_state\<lparr>elementOrder := [''b'', ''a'', ''c'']\<rparr>)"
    using d c5 by (simp add: o swap_at_def)
  have sb: "sendBackward [''a''] abc_state = abc_state"
    using d c5 by (simp add: o r)
  have sq: "bringForward [''a'', ''a''] abc_state
       = Option.bind (bringForward [''a''] abc_state) (bringForward [''a''])"
    using C5_zorder [of "[''a'']" abc_state abc_state "''a''" "''a''"] by blast
  have ds: "distinct (elementOrder (sendBackward [''c'', ''b''] abc_state))"
    using e c5 by blast
  have sd: "elementOrder (bringToFront [''b''] abc_state) = [''a'', ''c'', ''b'']
     \<and> elementOrder (sendToBack [''c''] abc_state) = [''c'', ''a'', ''b'']"
    using o c5 by blast
  show ?thesis using sd d bf sb sq e ds by (intro conjI) simp_all
qed

section \<open>Locked elements (C3)\<close>


lemma selectAll_unlocked:
  "i \<in> set (selectedIds (selectAll s)) \<Longrightarrow>
     \<exists>el. map_of (elements s) i = Some el \<and> \<not> locked el"
  by (auto simp: selectAll_def is_unlocked_def split: option.splits)

text \<open>
  C3, evaluated on the code. \<open>selectAll\<close> leaves a locked element out, but the drag
  gesture does not look at the \<open>locked\<close> flag: with one locked element \<open>a\<close> at (0, 0),
  100 by 100, \<open>selectAll\<close> selects nothing, a press at (50, 50) selects \<open>a\<close> and
  starts a drag, and a move of 40 to the right leaves \<open>a\<close>, still locked, at x = 40.
\<close>

theorem C3_locked_drag:
  "map_of (elements locked_state) ''a'' = Some (sample_element\<lparr>locked := True\<rparr>)
   \<and> selectedIds (selectAll locked_state) = []
   \<and> mouseDownSelect \<lparr>px = 50, py = 50\<rparr> False locked_state
       = (setSelection [''a''] locked_state, Some [(''a'', \<lparr>px = 0, py = 0\<rparr>)])
   \<and> map_option elements
        (dragMove \<lparr>px = 50, py = 50\<rparr> [(''a'', \<lparr>px = 0, py = 0\<rparr>)] \<lparr>px = 90, py = 50\<rparr>
           sample_clock (setSelection [''a''] locked_state))
       = Some [(''a'', sample_element\<lparr>locked := True, ex := 40, updatedAt := 7\<rparr>)]"
  by (simp add: locked_state_def initialState_def sample_element_def mouseDownSelect_def
      selectOrderedElements_def found_elements_def List.map_filter_def findElementAtPoint_def
      contains_point_def setSelection_def start_positions_def dragMove_def drag_one_def
      snap_value_def js_round_def updateElementSilent_def assign_element_def no_updates_def
      sample_clock_def Let_def floor_eq_iff selectAll_def is_unlocked_def)

section \<open>Import (C4)\<close>


text \<open>
  C4 as stated fails: a document of the wrong shape is stored as it is. With
  \<open>{"elements": 5}\<close> the store's \<open>elements\<close> becomes the number 5, and with
  \<open>{"elements": false, "elementOrder": ["x"]}\<close> the three elements of the document are
  replaced by an empty map and the order by a dangling id.
\<close>

theorem C4_import_counterexample:
  "importFromJSON (Some number_doc) abc_state = Ill_typed (JNum 5) (JArr [])
   \<and> importFromJSON (Some number_doc) abc_state \<noteq> Unmodified
   \<and> importFromJSON (Some false_doc) abc_state = Replaced (imported [] [''x''] abc_state)
   \<and> imported [] [''x''] abc_state \<noteq> abc_state"
proof -
  have a: "importFromJSON (Some number_doc) abc_state = Ill_typed (JNum 5) (JArr [])"
    by (simp add: importFromJSON_def assign_document_def import_values_def number_doc_def
        or_empty_object_def as_elements_def)
  have b: "importFromJSON (Some false_doc) abc_state = Replaced (imported [] [''x''] abc_state)"
    by (simp add: importFromJSON_def assign_document_def import_values_def false_doc_def
        or_empty_object_def as_elements_def as_order_def as_id_def imported_def)
  have "elementOrder (imported [] [''x''] abc_state) \<noteq> elementOrder abc_state"
    by (simp add: imported_def abc_state_def initialState_def)
  then have c: "imported [] [''x''] abc_state \<noteq> abc_state" by auto
  show ?thesis using a b c by simp
qed

lemma as_order_keys: "as_order (JArr (map JStr ks)) = Some ks"
proof -
  have "all_some (map as_id (map JStr ks)) = Some ks"
    by (induction ks) (simp_all add: as_id_def)
  then show ?thesis by (simp add: as_order_def)
qed

lemma all_some_keys:
  "all_some (map (\<lambda>(k, v). map_option (Pair k) (as_element v)) fs) = Some els
     \<Longrightarrow> map fst els = map fst fs"
proof (induction fs arbitrary: els)
  case Nil
  then show ?case by simp
next
  case (Cons f fs)
  obtain k v where f: "f = (k, v)" by (cases f)
  show ?case
  proof (cases "as_element v")
    case None
    then show ?thesis using Cons.prems f by simp
  next
    case (Some el)
    then obtain r where r: "all_some (map (\<lambda>(k, v). map_option (Pair k) (as_element v)) fs) = Some r"
      "els = (k, el) # r"
      using Cons.prems f by auto
    then show ?thesis using Cons.IH [OF r(1)] f by simp
  qed
qed

lemma as_elements_keys:
  "as_elements (JObj fs) = Some els \<Longrightarrow> object_keys (Some (JObj fs)) = Some (map fst els)"
  by (simp add: as_elements_def all_some_keys)

lemma type_name_inverse: "element_type_of (type_name t) = Some t"
  by (cases t) (simp_all add: element_type_of_def)

lemma as_element_json: "as_element (element_json el) = Some el"
  by (cases "groupId el")
    (simp_all add: as_element_def element_json_def str_field_def num_field_def bool_field_def
      opt_str_field_def type_name_inverse)

lemma as_elements_json:
  "as_elements (JObj (map (\<lambda>ke. (fst ke, element_json (snd ke))) els)) = Some els"
proof -
  have "all_some (map (\<lambda>(k, v). map_option (Pair k) (as_element v))
          (map (\<lambda>ke. (fst ke, element_json (snd ke))) els)) = Some els"
    by (induction els) (simp_all add: as_element_json)
  then show ?thesis by (simp add: as_elements_def)
qed

text \<open>
  Not part of C4 as amended below: when \<open>elementOrder\<close> is missing or falsy and
  \<open>elements\<close> is missing or \<open>null\<close>, as in the document \<open>{}\<close>, \<open>Object.keys\<close> throws
  after \<open>data.elements || {}\<close> has supplied the empty map, and the store stays as it
  is.
\<close>

lemma import_without_elements:
  "importFromJSON (Some (JObj [])) s = Unmodified"
  by (simp add: importFromJSON_def import_values_def)

text \<open>
  C4, amended. \<open>importFromJSON\<close> leaves the store unmodified when the text does not
  parse or parses to \<open>null\<close>. It does not check the shape of a document. When
  \<open>elementOrder\<close> is present and truthy, \<open>elements\<close> (the empty object when it is
  missing or falsy) and \<open>elementOrder\<close> are assigned as they are; when \<open>elementOrder\<close>
  is missing or falsy and \<open>elements\<close> is present and not \<open>null\<close>, \<open>elements\<close> (the
  empty object when falsy) and the list of its own keys are assigned. Assigned values
  that are an element map and an id list replace the store's \<open>elements\<close> and
  \<open>elementOrder\<close>, all other fields keeping their values except that the selection
  and the history stack are empty and the cursor is -1, so nothing can be undone;
  values of any other shape are stored all the same. The empty object is an element
  map, a list of keys is an id list and is the key list of the element map read from
  the same object, and a document that \<open>exportToJSON\<close> produced is imported as it was
  exported.
\<close>

theorem C4_import:
  "(parsed = None \<or> parsed = Some JNull \<longrightarrow> importFromJSON parsed s = Unmodified)
   \<and> (\<forall>s'. importFromJSON parsed s = Replaced s' \<longrightarrow>
         history s' = [] \<and> historyIndex s' = - 1 \<and> \<not> selectCanUndo s' \<and> selectedIds s' = [])
   \<and> (\<forall>fs ord.
         parsed = Some (JObj fs) \<and> map_of fs ''elementOrder'' = Some ord \<and> truthy ord
         \<longrightarrow> importFromJSON parsed s
              = assign_document
                  (case map_of fs ''elements'' of
                     None \<Rightarrow> JObj []
                   | Some e \<Rightarrow> if truthy e then e else JObj []) ord s)
   \<and> (\<forall>fs e.
         parsed = Some (JObj fs)
         \<and> (case map_of fs ''elementOrder'' of None \<Rightarrow> True | Some ord \<Rightarrow> \<not> truthy ord)
         \<and> map_of fs ''elements'' = Some e \<and> e \<noteq> JNull
         \<longrightarrow> (\<exists>ks. object_keys (Some e) = Some ks
                 \<and> importFromJSON parsed s
                     = assign_document (if truthy e then e else JObj []) (JArr (map JStr ks)) s))
   \<and> (\<forall>els ids. as_elements e = Some els \<and> as_order ord = Some ids
         \<longrightarrow> assign_document e ord s = Replaced (imported els ids s))
   \<and> (as_elements e = None \<or> as_order ord = None \<longrightarrow> assign_document e ord s = Ill_typed e ord)
   \<and> as_elements (JObj []) = Some []
   \<and> as_order (JArr (map JStr ks)) = Some ks
   \<and> (\<forall>fs els. as_elements (JObj fs) = Some els
         \<longrightarrow> object_keys (Some (JObj fs)) = Some (map fst els))
   \<and> importFromJSON (Some (exportToJSON t)) s
        = Replaced (imported (elements t) (elementOrder t) s)"
proof -
  have a: "parsed = None \<or> parsed = Some JNull \<longrightarrow> importFromJSON parsed s = Unmodified"
    by (auto simp: importFromJSON_def import_values_def)
  have b: "\<forall>s'. importFromJSON parsed s = Replaced s' \<longrightarrow>
         history s' = [] \<and> historyIndex s' = - 1 \<and> \<not> selectCanUndo s' \<and> selectedIds s' = []"
    by (auto simp: importFromJSON_def assign_document_def selectCanUndo_def
        split: option.splits prod.splits)
  have c: "\<forall>fs ord.
         parsed = Some (JObj fs) \<and> map_of fs ''elementOrder'' = Some ord \<and> truthy ord
         \<longrightarrow> importFromJSON parsed s
              = assign_document
                  (case map_of fs ''elements'' of
                     None \<Rightarrow> JObj []
                   | Some e \<Rightarrow> if truthy e then e else JObj []) ord s"
    by (simp add: importFromJSON_def import_values_def or_empty_object_def)
  have d: "\<forall>fs e.
         parsed = Some (JObj fs)
         \<and> (case map_of fs ''elementOrder'' of None \<Rightarrow> True | Some ord \<Rightarrow> \<not> truthy ord)
         \<and> map_of fs ''elements'' = Some e \<and> e \<noteq> JNull
         \<longrightarrow> (\<exists>ks. object_keys (Some e) = Some ks
                 \<and> importFromJSON parsed s
                     = assign_document (if truthy e then e else JObj []) (JArr (map JStr ks)) s)"
  proof (intro allI impI)
    fix fs e
    assume h: "parsed = Some (JObj fs)
         \<and> (case map_of fs ''elementOrder'' of None \<Rightarrow> True | Some ord \<Rightarrow> \<not> truthy ord)
         \<and> map_of fs ''elements'' = Some e \<and> e \<noteq> JNull"
    then obtain ks where ks: "object_keys (Some e) = Some ks" by (cases e) simp_all
    have "importFromJSON parsed s
            = assign_document (if truthy e then e else JObj []) (JArr (map JStr ks)) s"
      using h ks
      by (auto simp: importFromJSON_def import_values_def or_empty_object_def
          split: option.splits)
    then show "\<exists>ks. object_keys (Some e) = Some ks
                 \<and> importFromJSON parsed s
                     = assign_document (if truthy e then e else JObj []) (JArr (map JStr ks)) s"
      using ks by blast
  qed
  have e1: "\<forall>els ids. as_elements e = Some els \<and> as_order ord = Some ids
         \<longrightarrow> assign_document e ord s = Replaced (imported els ids s)"
    by (simp add: assign_document_def imported_def)
  have e2: "as_elements e = None \<or> as_order ord = None
         \<longrightarrow> assign_document e ord s = Ill_typed e ord"
    by (auto simp: assign_document_def split: option.splits)
  have f: "as_elements (JObj []) = Some []" by (simp add: as_elements_def)
  have g: "as_order (JArr (map JStr ks)) = Some ks" by (rule as_order_keys)
  have h: "\<forall>fs els. as_elements (JObj fs) = Some els
         \<longrightarrow> object_keys (Some (JObj fs)) = Some (map fst els)"
    using as_elements_keys by blast
  have i: "importFromJSON (Some (exportToJSON t)) s
        = Replaced (imported (elements t) (elementOrder t) s)"
    by (simp add: importFromJSON_def import_values_def or_empty_object_def exportToJSON_def
        assign_document_def as_elements_json as_order_keys imported_def)
  show ?thesis
    by (intro conjI)
      (fact a, fact b, fact c, fact d, fact e1, fact e2, fact f, fact g, fact h, fact i)
qed

theorem C4_import_witness:
  "importFromJSON None abc_state = Unmodified
   \<and> importFromJSON (Some JNull) abc_state = Unmodified
   \<and> importFromJSON (Some (JObj [(''version'', JNum 1), (''elements'', JObj []),
                                (''elementOrder'', JArr [])])) abc_state
       = Replaced (imported [] [] abc_state)
   \<and> \<not> selectCanUndo (imported [] [] abc_state)
   \<and> importFromJSON (Some (JObj [(''elementOrder'', JArr [JStr ''x''])])) abc_state
       = Replaced (imported [] [''x''] abc_state)
   \<and> importFromJSON (Some (JObj [(''elements'', JObj [])])) abc_state
       = Replaced (imported [] [] abc_state)
   \<and> importFromJSON (Some number_doc) abc_state = Ill_typed (JNum 5) (JArr [])
   \<and> as_elements (JObj [(''a'', element_json sample_element)]) = Some [(''a'', sample_element)]
   \<and> object_keys (Some (JObj [(''a'', element_json sample_element)])) = Some [''a'']
   \<and> importFromJSON (Some (exportToJSON abc_state)) initialState
       = Replaced (imported (elements abc_state) (elementOrder abc_state) initialState)"
proof -
  let ?full = "Some (JObj [(''version'', JNum 1), (''elements'', JObj []),
                           (''elementOrder'', JArr [])])"
  let ?ord = "Some (JObj [(''elementOrder'', JArr [JStr ''x''])])"
  let ?els = "Some (JObj [(''elements'', JObj [])])"
  have u: "importFromJSON None abc_state = Unmodified"
    using C4_import [of None abc_state] by simp
  have v: "importFromJSON (Some JNull) abc_state = Unmodified"
    using C4_import [of "Some JNull" abc_state] by simp
  have x0: "as_order (JArr []) = Some []"
    using C4_import [of None abc_state JNull JNull "[]"] by simp
  have x1: "as_order (JArr [JStr ''x'']) = Some [''x'']"
    using C4_import [of None abc_state JNull JNull "[''x'']"] by simp
  have y: "importFromJSON ?full abc_state = Replaced (imported [] [] abc_state)"
    using x0 C4_import [of ?full abc_state "JObj []" "JArr []"] by simp
  have z: "\<not> selectCanUndo (imported [] [] abc_state)"
    using y C4_import [of ?full abc_state] by simp
  have o: "importFromJSON ?ord abc_state = Replaced (imported [] [''x''] abc_state)"
    using x1 C4_import [of ?ord abc_state "JObj []" "JArr [JStr ''x'']"] by simp
  have e: "importFromJSON ?els abc_state = Replaced (imported [] [] abc_state)"
    using x0 C4_import [of ?els abc_state "JObj []" "JArr []" "[]"] by simp
  have n: "importFromJSON (Some number_doc) abc_state = Ill_typed (JNum 5) (JArr [])"
    using C4_import [of "Some number_doc" abc_state "JNum 5" "JArr []" "[]"]
    by (simp add: number_doc_def as_elements_def)
  have k1: "as_elements (JObj [(''a'', element_json sample_element)]) = Some [(''a'', sample_element)]"
    using as_elements_json [of "[(''a'', sample_element)]"] by simp
  have k2: "object_keys (Some (JObj [(''a'', element_json sample_element)])) = Some [''a'']"
    using k1 C4_import [of None abc_state] by simp
  have x: "importFromJSON (Some (exportToJSON abc_state)) initialState
       = Replaced (imported (elements abc_state) (elementOrder abc_state) initialState)"
    using C4_import [of None initialState JNull JNull "[]" abc_state] by simp
  show ?thesis using u v y z o e n k1 k2 x by simp
qed



section \<open>Bounded history (C7)\<close>




lemma pushHistory_history:
  "history (pushHistory e hid ts s) =
     (if length (slice0 (history s) (historyIndex s + 1)) \<ge> 100
      then tl (slice0 (history s) (historyIndex s + 1) @ [stamp (e, hid, ts)])
      else slice0 (history s) (historyIndex s + 1) @ [stamp (e, hid, ts)])"
  by (simp add: pushHistory_def Let_def stamp_def)

lemma pushHistory_index:
  "historyIndex (pushHistory e hid ts s) = int (length (history (pushHistory e hid ts s))) - 1"
  by (auto simp: pushHistory_def Let_def)






lemma undo_history: "history (undo s) = history s"
  by (simp add: undo_def Let_def)

lemma undo_index:
  "historyIndex (undo s) =
     (if 0 \<le> historyIndex s \<and> historyIndex s < int (length (history s))
      then historyIndex s - 1 else historyIndex s)"
  by (simp add: undo_def Let_def)

















section \<open>Undo and redo (C1)\<close>


lemma restore_one_lookup:
  "map_of (fst (restore snap d i)) k = (if k = i then snap i else map_of (fst d) k)"
  by (cases "snap i") (simp_all add: restore_def update_conv' delete_conv')

lemma restore_lookup:
  "map_of (fst (foldl (restore snap) d ids)) k
     = (if k \<in> set ids then snap k else map_of (fst d) k)"
  by (induction ids rule: rev_induct) (simp_all add: restore_one_lookup)

lemma pushHistory_elements:
  "elements (pushHistory e hid ts t) = elements t"
  "elementOrder (pushHistory e hid ts t) = elementOrder t"
  "selectedIds (pushHistory e hid ts t) = selectedIds t"
  by (simp_all add: pushHistory_def Let_def)

lemma pushHistory_last:
  "history (pushHistory e hid ts t) \<noteq> []
   \<and> last (history (pushHistory e hid ts t)) = stamp (e, hid, ts)"
proof -
  define h where "h = slice0 (history t) (historyIndex t + 1) @ [stamp (e, hid, ts)]"
  have hh: "history (pushHistory e hid ts t) = (if length h > 100 then tl h else h)"
    by (simp add: pushHistory_history h_def)
  have l: "last h = stamp (e, hid, ts)" "h \<noteq> []" by (simp_all add: h_def)
  show ?thesis
  proof (cases "length h > 100")
    case True
    then have "tl h \<noteq> []" by (cases h) auto
    then show ?thesis using True hh l by (simp add: last_tl)
  next
    case False
    then show ?thesis using hh l by simp
  qed
qed

lemma undo_entry_push:
  "undo_entry (pushHistory e hid ts t) = Some (stamp (e, hid, ts))"
proof -
  have n: "history (pushHistory e hid ts t) \<noteq> []"
    and l: "last (history (pushHistory e hid ts t)) = stamp (e, hid, ts)"
    using pushHistory_last by simp_all
  have i: "historyIndex (pushHistory e hid ts t) = int (length (history (pushHistory e hid ts t))) - 1"
    by (rule pushHistory_index)
  have p: "0 < length (history (pushHistory e hid ts t))" using n by simp
  have "nat (int (length (history (pushHistory e hid ts t))) - 1)
          = length (history (pushHistory e hid ts t)) - 1" by simp
  then show ?thesis using n l i p
    by (simp add: undo_entry_def last_conv_nth)
qed

lemma undo_alt:
  "undo s = (case undo_entry s of
      None \<Rightarrow> s
    | Some entry \<Rightarrow>
        s\<lparr>elements := fst (foldl (restore (before entry)) (elements s, elementOrder s) (elementIds entry)),
          elementOrder := snd (foldl (restore (before entry)) (elements s, elementOrder s) (elementIds entry)),
          historyIndex := historyIndex s - 1\<rparr>)"
  by (simp add: undo_def undo_entry_def Let_def)

lemma stamp_fields:
  "elementIds (stamp (e, hid, ts)) = elementIds e"
  "before (stamp (e, hid, ts)) = before e"
  "after (stamp (e, hid, ts)) = after e"
  by (simp_all add: stamp_def)

lemma undo_push_lookup:
  "map_of (elements (undo (pushHistory e hid ts t))) k
     = (if k \<in> set (elementIds e) then before e k else map_of (elements t) k)"
  by (simp add: undo_alt undo_entry_push stamp_fields restore_lookup pushHistory_elements)

lemma redo_undo_push_lookup:
  "map_of (elements (redo (undo (pushHistory e hid ts t)))) k
     = (if k \<in> set (elementIds e) then after e k else map_of (elements t) k)"
proof -
  define s1 where "s1 = pushHistory e hid ts t"
  define u where "u = undo s1"
  have n: "history s1 \<noteq> []" and l: "last (history s1) = stamp (e, hid, ts)"
    using pushHistory_last by (simp_all add: s1_def)
  have i: "historyIndex s1 = int (length (history s1)) - 1"
    unfolding s1_def by (rule pushHistory_index)
  have uh: "history u = history s1" by (simp add: u_def undo_history)
  have ui: "historyIndex u = int (length (history s1)) - 2"
    using i n by (simp add: u_def undo_index)
  have p: "0 < length (history s1)" using n by simp
  have nn: "nat (int (length (history s1)) - 2 + 1) = length (history s1) - 1" by simp
  have ent: "history u ! nat (historyIndex u + 1) = stamp (e, hid, ts)"
    using uh ui l n nn by (simp add: last_conv_nth)
  have g1: "\<not> historyIndex u \<ge> int (length (history u)) - 1" using uh ui by simp
  have g2: "\<not> historyIndex u + 1 < 0" using ui p by simp
  have r: "elements (redo u)
      = fst (foldl (restore (after (stamp (e, hid, ts)))) (elements u, elementOrder u)
               (elementIds (stamp (e, hid, ts))))"
    using g1 g2 ent by (simp add: redo_def Let_def)
  have ul: "map_of (elements u) k
     = (if k \<in> set (elementIds e) then before e k else map_of (elements t) k)"
    unfolding u_def s1_def by (rule undo_push_lookup)
  show ?thesis
    unfolding s1_def [symmetric] u_def [symmetric] r
    using ul by (simp add: restore_lookup stamp_fields)
qed


lemma before_fold:
  "foldl (\<lambda>b i. b(i := m i)) b0 ids k = (if k \<in> set ids then m k else b0 k)"
  by (induction ids rule: rev_induct) simp_all

lemma after_fold:
  "foldl (\<lambda>a i. a(i := None)) a0 ids k = (if k \<in> set ids then None else a0 k)"
  by (induction ids rule: rev_induct) simp_all

lemma remove_ids_lookup:
  "map_of (fst (foldl (\<lambda>d i. remove_id i d) d ids)) k
     = (if k \<in> set ids then None else map_of (fst d) k)"
  by (induction ids rule: rev_induct) (simp_all add: remove_id_def delete_conv')

text \<open>
  C1. For every state and every single recorded mutation, the whole element map is
  compared key by key, each value being a complete element. The recorded mutations
  are \<open>addElement\<close> of an element with a new id (the ids of new elements come from
  \<open>createId()\<close>), \<open>updateElement\<close> of an existing id, and \<open>deleteElements\<close> of any
  id list; \<open>updateElement\<close> of an absent id is no mutation: it changes nothing and
  records nothing. After each of them \<open>undo\<close> gives back the map of the state before
  (an element the mutation created is deleted), and \<open>redo\<close> after that \<open>undo\<close> gives
  back the map as it was after the mutation.
\<close>

theorem C1_undo_redo:
  "(eid el \<notin> live_ids s \<longrightarrow>
      (\<forall>k. map_of (elements (undo (addElement el hid ts s))) k = map_of (elements s) k))
   \<and> map_of (elements (addElement el hid ts s)) (eid el) = Some el
   \<and> map_of (elements (undo (addElement el hid ts s))) (eid el) = None
   \<and> (\<forall>k. map_of (elements (redo (undo (addElement el hid ts s)))) k
           = map_of (elements (addElement el hid ts s)) k)
   \<and> (i \<in> live_ids s \<longrightarrow>
        (\<forall>k. map_of (elements (undo (updateElement i u now hid ts s))) k = map_of (elements s) k)
        \<and> (\<forall>k. map_of (elements (redo (undo (updateElement i u now hid ts s)))) k
               = map_of (elements (updateElement i u now hid ts s)) k))
   \<and> (i \<notin> live_ids s \<longrightarrow> updateElement i u now hid ts s = s)
   \<and> (\<forall>k. map_of (elements (undo (deleteElements ids hid ts s))) k = map_of (elements s) k)
   \<and> (\<forall>k. map_of (elements (redo (undo (deleteElements ids hid ts s)))) k
           = map_of (elements (deleteElements ids hid ts s)) k)"
proof -
  have live: "(j \<in> live_ids s) = (map_of (elements s) j \<noteq> None)" for j
    by (simp add: live_ids_def map_of_eq_None_iff)
  have a1: "eid el \<notin> live_ids s \<longrightarrow>
      (\<forall>k. map_of (elements (undo (addElement el hid ts s))) k = map_of (elements s) k)"
    by (simp add: live addElement_def undo_push_lookup update_conv')
  have a2: "map_of (elements (addElement el hid ts s)) (eid el) = Some el"
    by (simp add: addElement_def pushHistory_elements update_conv')
  have a3: "map_of (elements (undo (addElement el hid ts s))) (eid el) = None"
    by (simp add: addElement_def undo_push_lookup)
  have a4: "\<forall>k. map_of (elements (redo (undo (addElement el hid ts s)))) k
           = map_of (elements (addElement el hid ts s)) k"
    by (simp add: addElement_def redo_undo_push_lookup pushHistory_elements update_conv')
  have u1: "i \<in> live_ids s \<longrightarrow>
        (\<forall>k. map_of (elements (undo (updateElement i u now hid ts s))) k = map_of (elements s) k)
        \<and> (\<forall>k. map_of (elements (redo (undo (updateElement i u now hid ts s)))) k
               = map_of (elements (updateElement i u now hid ts s)) k)"
  proof
    assume "i \<in> live_ids s"
    then obtain x where x: "map_of (elements s) i = Some x" using live by auto
    show "(\<forall>k. map_of (elements (undo (updateElement i u now hid ts s))) k = map_of (elements s) k)
        \<and> (\<forall>k. map_of (elements (redo (undo (updateElement i u now hid ts s)))) k
               = map_of (elements (updateElement i u now hid ts s)) k)"
      using x
      by (simp add: updateElement_def Let_def undo_push_lookup redo_undo_push_lookup
          pushHistory_elements update_conv')
  qed
  have u2: "i \<notin> live_ids s \<longrightarrow> updateElement i u now hid ts s = s"
    by (simp add: live updateElement_def)
  have d1: "\<forall>k. map_of (elements (undo (deleteElements ids hid ts s))) k = map_of (elements s) k"
    by (simp add: deleteElements_def Let_def undo_push_lookup before_fold remove_ids_lookup)
  have d2: "\<forall>k. map_of (elements (redo (undo (deleteElements ids hid ts s)))) k
           = map_of (elements (deleteElements ids hid ts s)) k"
    by (simp add: deleteElements_def Let_def redo_undo_push_lookup after_fold
        remove_ids_lookup pushHistory_elements)
  show ?thesis by (intro conjI) (fact a1, fact a2, fact a3, fact a4, fact u1, fact u2, fact d1, fact d2)
qed

theorem C1_undo_redo_witness:
  "eid sample_element \<notin> live_ids initialState
   \<and> map_of (elements (undo (addElement sample_element ''h'' 1 initialState))) ''a'' = None
   \<and> map_of (elements (redo (undo (addElement sample_element ''h'' 1 initialState)))) ''a''
       = Some sample_element
   \<and> ''b'' \<in> live_ids abc_state
   \<and> map_of (elements (undo (updateElement ''b'' (no_updates\<lparr>u_x := Some 9\<rparr>) 3 ''h'' 1 abc_state))) ''b''
       = Some (sample_element\<lparr>eid := ''b''\<rparr>)
   \<and> ''z'' \<notin> live_ids abc_state
   \<and> updateElement ''z'' (no_updates\<lparr>u_x := Some 9\<rparr>) 3 ''h'' 1 abc_state = abc_state
   \<and> map_of (elements (undo (deleteElements [''a'', ''c''] ''h'' 1 abc_state))) ''c''
       = Some (sample_element\<lparr>eid := ''c''\<rparr>)"
proof -
  have f: "eid sample_element \<notin> live_ids initialState"
    by (simp add: live_ids_def initialState_def)
  have e: "eid sample_element = ''a''" by (simp add: sample_element_def)
  have b: "''b'' \<in> live_ids abc_state"
    by (simp add: live_ids_def abc_state_def initialState_def)
  have m: "map_of (elements abc_state) ''b'' = Some (sample_element\<lparr>eid := ''b''\<rparr>)"
    "map_of (elements abc_state) ''c'' = Some (sample_element\<lparr>eid := ''c''\<rparr>)"
    by (simp_all add: abc_state_def initialState_def)
  have n: "map_of (elements initialState) ''a'' = None" by (simp add: initialState_def)
  have z: "''z'' \<notin> live_ids abc_state"
    by (simp add: live_ids_def abc_state_def initialState_def)
  show ?thesis
    using f e b m n z
      C1_undo_redo [of sample_element initialState "''h''" 1 "''b''" "no_updates\<lparr>u_x := Some 9\<rparr>" 3 "[''a'', ''c'']"]
      C1_undo_redo [of sample_element abc_state "''h''" 1 "''b''" "no_updates\<lparr>u_x := Some 9\<rparr>" 3 "[''a'', ''c'']"]
      C1_undo_redo [of sample_element abc_state "''h''" 1 "''z''" "no_updates\<lparr>u_x := Some 9\<rparr>" 3 "[''a'', ''c'']"]
    by simp
qed


section \<open>Order and selection invariant (C2)\<close>












lemma live_ids_pushHistory:
  "live_ids (pushHistory e hid ts t) = live_ids t"
  by (simp add: live_ids_def pushHistory_elements)

lemma selection_inv_pushHistory:
  "selection_inv (pushHistory e hid ts t) = selection_inv t"
  by (simp add: selection_inv_def live_ids_pushHistory pushHistory_elements)



















































text \<open>Ids that are already in use break the order invariant, as the second of two
  additions of the same element shows.\<close>

lemma order_needs_new_ids:
  "elementOrder (addElement sample_element ''h2'' 2 (addElement sample_element ''h1'' 1 initialState))
     = [''a'', ''a'']"
  by (simp add: addElement_def pushHistory_def initialState_def sample_element_def Let_def)






section \<open>Paste records no history (C10)\<close>


lemma undo_entry_paste:
  "undo_entry (paste fresh clock offset s) = undo_entry s"
  by (simp add: undo_entry_def paste_def Let_def insert_all_history)

lemma undo_keeps_others:
  assumes "case undo_entry s of None \<Rightarrow> True | Some e \<Rightarrow> k \<notin> set (elementIds e)"
  shows "map_of (elements (undo s)) k = map_of (elements s) k"
  using assms by (auto simp: undo_alt restore_lookup split: option.splits)

text \<open>
  C10. For every state and every offset, \<open>paste\<close> leaves the history stack and the
  cursor unchanged: it records no entry. \<open>undo\<close> after a paste therefore reverts the
  entry that was on top before the paste, and every element whose id that entry does
  not name, the pasted copies with their new ids among them, stays as paste left it.
  With a non-empty clipboard paste replaces the selection by the ids of the pasted
  copies and appends them to the order; with an empty clipboard it leaves the whole
  state unchanged.
\<close>

theorem C10_paste_no_history:
  "history (paste fresh clock offset s) = history s
   \<and> historyIndex (paste fresh clock offset s) = historyIndex s
   \<and> selectCanUndo (paste fresh clock offset s) = selectCanUndo s
   \<and> undo_entry (paste fresh clock offset s) = undo_entry s
   \<and> ((case undo_entry s of None \<Rightarrow> True | Some e \<Rightarrow> k \<notin> set (elementIds e)) \<longrightarrow>
        map_of (elements (undo (paste fresh clock offset s))) k
          = map_of (elements (paste fresh clock offset s)) k)
   \<and> (clipboard s \<noteq> [] \<longrightarrow>
        selectedIds (paste fresh clock offset s) = map fresh [0..<length (clipboard s)]
        \<and> elementOrder (paste fresh clock offset s)
            = elementOrder s @ map fresh [0..<length (clipboard s)])
   \<and> (clipboard s = [] \<longrightarrow> paste fresh clock offset s = s)"
proof -
  have h: "history (paste fresh clock offset s) = history s"
    by (simp add: paste_def Let_def insert_all_history)
  have i: "historyIndex (paste fresh clock offset s) = historyIndex s"
    by (simp add: paste_def Let_def insert_all_history)
  have c: "selectCanUndo (paste fresh clock offset s) = selectCanUndo s"
    using i by (simp add: selectCanUndo_def)
  have u: "undo_entry (paste fresh clock offset s) = undo_entry s"
    by (rule undo_entry_paste)
  have k: "(case undo_entry s of None \<Rightarrow> True | Some e \<Rightarrow> k \<notin> set (elementIds e)) \<longrightarrow>
        map_of (elements (undo (paste fresh clock offset s))) k
          = map_of (elements (paste fresh clock offset s)) k"
    using undo_keeps_others [where s = "paste fresh clock offset s" and k = k] u by simp
  have e: "clipboard s = [] \<longrightarrow> paste fresh clock offset s = s"
    by (simp add: paste_def Let_def)
  have n: "clipboard s \<noteq> [] \<longrightarrow>
        selectedIds (paste fresh clock offset s) = map fresh [0..<length (clipboard s)]
        \<and> elementOrder (paste fresh clock offset s)
            = elementOrder s @ map fresh [0..<length (clipboard s)]"
    using map_eid_fresh_copy [of fresh clock _ _ 0 "clipboard s"]
    by (simp add: paste_def Let_def insert_all_def foldl_insert_element)
  show ?thesis by (intro conjI) (fact h, fact i, fact c, fact u, fact k, fact n, fact e)
qed

theorem C10_paste_no_history_witness:
  "paste sample_fresh sample_clock None initialState = initialState
   \<and> clipboard clip_state \<noteq> []
   \<and> selectedIds (paste sample_fresh sample_clock None clip_state) = [''n0'']
   \<and> history (paste sample_fresh sample_clock None clip_state) = history clip_state
   \<and> undo_entry clip_state = Some (stamp (sample_entry, ''h'', 1))
   \<and> map_of (elements (undo (paste sample_fresh sample_clock None clip_state))) ''n0''
       = Some (sample_element\<lparr>eid := ''n0'', ex := 20, ey := 20, createdAt := 7, updatedAt := 7\<rparr>)"
proof -
  have pc: "clipboard (pushHistory en hid ts t) = clipboard t" for en hid ts t
    by (simp add: pushHistory_def Let_def)
  have c: "clipboard clip_state \<noteq> []" by (simp add: clip_state_def pc)
  have e: "clipboard initialState = []" by (simp add: initialState_def)
  have u: "undo_entry clip_state = Some (stamp (sample_entry, ''h'', 1))"
    unfolding clip_state_def by (rule undo_entry_push)
  have n: "''n0'' \<notin> set (elementIds (stamp (sample_entry, ''h'', 1)))"
    by (simp add: stamp_def sample_entry_def)
  have f: "map sample_fresh [0..<length (clipboard clip_state)] = [''n0'']"
    by (simp add: clip_state_def sample_fresh_def pc digit_char_def)
  have p: "map_of (elements (paste sample_fresh sample_clock None clip_state)) ''n0''
       = Some (sample_element\<lparr>eid := ''n0'', ex := 20, ey := 20, createdAt := 7, updatedAt := 7\<rparr>)"
    by (simp add: clip_state_def paste_def Let_def insert_all_def insert_element_def
        fresh_copy_def sample_fresh_def sample_clock_def sample_element_def addElement_def
        pushHistory_elements update_conv' initialState_def pc digit_char_def)
  show ?thesis
    using c e u n f p
      C10_paste_no_history [of sample_fresh sample_clock None initialState "''n0''"]
      C10_paste_no_history [of sample_fresh sample_clock None clip_state "''n0''"]
    by simp
qed

end
